theory Spec2Isabelle
  imports Main
begin

section \<open>Values, errors and dictionaries\<close>

text \<open>
  A field of a model object holds a dynamically typed Python value. \<open>Unset\<close> is the
  sentinel \<^verbatim>\<open>UNSET\<close> of \<^verbatim>\<open>otterdog.utils\<close>, \<open>Null\<close> is \<^verbatim>\<open>None\<close>.
\<close>

datatype val = Unset | Null | VBool bool | VInt int | VStr string | VList "string list"

datatype error = TypeError | KeyError | RuntimeError | AssertionError

text \<open>Sequencing of computations that may raise: the first exception wins.\<close>

definition and_then :: "error + 'a \<Rightarrow> ('a \<Rightarrow> error + 'b) \<Rightarrow> error + 'b" where
  "and_then m f = (case m of Inl e \<Rightarrow> Inl e | Inr x \<Rightarrow> f x)"

fun collect :: "(error + 'a list) list \<Rightarrow> error + 'a list" where
  "collect [] = Inr []"
| "collect (r # rs) = and_then r (\<lambda>ps. and_then (collect rs) (\<lambda>qs. Inr (ps @ qs)))"

text \<open>
  Modelled from the spec: \<^verbatim>\<open>otterdog.utils.is_unset\<close> and \<^verbatim>\<open>is_set_and_valid\<close> are
  imported by the model classes but defined outside the sources at hand. The spec has the
  unset sentinel "orthogonal to null": unset is "not specified", null is "explicitly
  cleared"; a value is set and valid when it is neither.
\<close>

definition is_unset :: "val \<Rightarrow> bool" where
  "is_unset v = (v = Unset)"

definition is_set_and_valid :: "val \<Rightarrow> bool" where
  "is_set_and_valid v = (\<not> is_unset v \<and> v \<noteq> Null)"

text \<open>Python's \<^verbatim>\<open>==\<close> on these values: structural, except that a bool is the int 0 or 1.\<close>

fun py_eq :: "val \<Rightarrow> val \<Rightarrow> bool" where
  "py_eq (VBool b) (VInt n) = (n = (if b then 1 else 0))"
| "py_eq (VInt n) (VBool b) = (n = (if b then 1 else 0))"
| "py_eq a b = (a = b)"

text \<open>Python's \<^verbatim>\<open>len\<close>: defined on strings and lists, a \<^verbatim>\<open>TypeError\<close> elsewhere.\<close>

fun py_len :: "val \<Rightarrow> error + nat" where
  "py_len (VStr s) = Inr (length s)"
| "py_len (VList xs) = Inr (length xs)"
| "py_len _ = Inl TypeError"

text \<open>An operand of \<^verbatim>\<open>0 <= x <= 43200\<close>: ints and bools compare with ints, nothing else does.\<close>

fun py_int :: "val \<Rightarrow> error + int" where
  "py_int (VInt n) = Inr n"
| "py_int (VBool b) = Inr (if b then 1 else 0)"
| "py_int _ = Inl TypeError"

text \<open>Membership in a set literal hashes the operand: a list is unhashable.\<close>

fun py_in_str_set :: "val \<Rightarrow> string list \<Rightarrow> error + bool" where
  "py_in_str_set (VList xs) S = Inl TypeError"
| "py_in_str_set (VStr s) S = Inr (s \<in> set S)"
| "py_in_str_set _ S = Inr False"

text \<open>\<^verbatim>\<open>str.lower\<close>, on the ASCII letters.\<close>

definition lower_char :: "char \<Rightarrow> char" where
  "lower_char c =
     (case map_of (zip ''ABCDEFGHIJKLMNOPQRSTUVWXYZ'' ''abcdefghijklmnopqrstuvwxyz'') c of
        None \<Rightarrow> c | Some l \<Rightarrow> l)"

definition lower :: "string \<Rightarrow> string" where
  "lower s = map lower_char s"

text \<open>
  A \<^verbatim>\<open>dict\<close> is an association list with distinct keys in insertion order:
  \<^verbatim>\<open>d.get(k)\<close> is \<open>map_of d k\<close>, \<^verbatim>\<open>d[k] = v\<close> keeps the position of an existing key,
  \<^verbatim>\<open>d.pop(k)\<close> raises \<^verbatim>\<open>KeyError\<close> on a missing key.
\<close>

fun dict_set :: "('k \<times> 'v) list \<Rightarrow> 'k \<Rightarrow> 'v \<Rightarrow> ('k \<times> 'v) list" where
  "dict_set [] k v = [(k, v)]"
| "dict_set ((k', v') # d) k v = (if k' = k then (k, v) # d else (k', v') # dict_set d k v)"

definition dict_remove :: "('k \<times> 'v) list \<Rightarrow> 'k \<Rightarrow> ('k \<times> 'v) list" where
  "dict_remove d k = filter (\<lambda>kv. fst kv \<noteq> k) d"

definition dict_pop :: "('k \<times> 'v) list \<Rightarrow> 'k \<Rightarrow> error + ('k \<times> 'v) list" where
  "dict_pop d k = (if map_of d k = None then Inl KeyError else Inr (dict_remove d k))"

definition dict_keys :: "('k \<times> 'v) list \<Rightarrow> 'k list" where
  "dict_keys d = map fst d"

text \<open>
  Modelled from the spec: \<^verbatim>\<open>otterdog.utils.associate_by_key\<close> is not among the sources.
  List reconciliation works on lists "keyed by a stable identity"; the helper builds the
  dictionary from key to entity, in list order. The results below assume the keys of a list
  distinct (the data model's invariant), where every reading of the helper agrees.
\<close>

definition associate_by_key :: "'a list \<Rightarrow> ('a \<Rightarrow> 'k) \<Rightarrow> ('k \<times> 'a) list" where
  "associate_by_key xs key_func = fold (\<lambda>x d. dict_set d (key_func x) x) xs []"

section \<open>Changes, findings and the generic field diff\<close>

datatype change = Change (from_value: val) (to_value: val)

datatype failure_type = INFO | WARNING | ERROR

type_synonym finding = "failure_type \<times> string"

text \<open>
  Modelled from the spec: \<^verbatim>\<open>ModelObject.get_difference_from\<close> is inherited from the base
  class, which is not among the sources. The spec: "for each field eligible under
  include_field_for_diff_computation(field), compare expected vs current value; if different
  and expected is not unset, record a Change(from=current, to=expected) keyed by field name."
  The receiver (\<open>self_items\<close>, with its predicate \<open>include\<close>) is the expected object, the
  argument the current one; both list the same fields in declaration order.
\<close>

definition get_difference_from ::
  "(string \<Rightarrow> bool) \<Rightarrow> (string \<times> val) list \<Rightarrow> (string \<times> val) list \<Rightarrow> (string \<times> change) list" where
  "get_difference_from include self_items other_items =
     map (\<lambda>(to, from). (fst to, Change (snd from) (snd to)))
       (filter (\<lambda>(to, from). include (fst to) \<and> \<not> is_unset (snd to) \<and> \<not> py_eq (snd from) (snd to))
          (zip self_items other_items))"

section \<open>Environment\<close>

record environment =
  env_id :: val
  env_node_id :: val
  env_name :: string
  wait_timer :: val
  reviewers :: val
  deployment_branch_policy :: val
  branch_policies :: val

text \<open>The dataclass fields with their values, in declaration order.\<close>

definition Environment_items :: "environment \<Rightarrow> (string \<times> val) list" where
  "Environment_items e =
     [(''id'', env_id e), (''node_id'', env_node_id e), (''name'', VStr (env_name e)),
      (''wait_timer'', wait_timer e), (''reviewers'', reviewers e),
      (''deployment_branch_policy'', deployment_branch_policy e),
      (''branch_policies'', branch_policies e)]"

text \<open>
  \<^verbatim>\<open>Environment.validate\<close>. The findings carry the severity and the constant part of the
  message; the interpolated header and values are left out.
\<close>

definition Environment_validate :: "environment \<Rightarrow> error + finding list" where
  "Environment_validate e =
     and_then
       (if is_unset (wait_timer e) then Inr []
        else and_then (py_int (wait_timer e)) (\<lambda>n.
          Inr (if \<not> (0 \<le> n \<and> n \<le> 43200)
               then [(ERROR, ''has wait_timer outside of supported range (0, 43200).'')]
               else [])))
       (\<lambda>f1.
          if is_set_and_valid (deployment_branch_policy e) then
            and_then (py_in_str_set (deployment_branch_policy e) [''all'', ''protected'', ''selected''])
              (\<lambda>allowed.
                 let f2 = (if \<not> allowed
                           then [(ERROR, ''has deployment_branch_policy, only values (all | protected | selected) are allowed.'')]
                           else [])
                 in if deployment_branch_policy e \<noteq> VStr ''selected'' then
                      and_then (py_len (branch_policies e)) (\<lambda>n.
                        Inr (f1 @ f2 @
                          (if n > 0
                           then [(WARNING, ''has deployment_branch_policy set, but branch_policies is set, setting will be ignored.'')]
                           else [])))
                    else Inr (f1 @ f2))
          else Inr f1)"

definition Environment_include_field_for_diff_computation :: "environment \<Rightarrow> string \<Rightarrow> bool" where
  "Environment_include_field_for_diff_computation e field_name =
     (if deployment_branch_policy e \<noteq> VStr ''selected'' then
        (if field_name \<in> set [''branch_policies''] then False else True)
      else True)"

definition Environment_get_difference_from :: "environment \<Rightarrow> environment \<Rightarrow> (string \<times> change) list" where
  "Environment_get_difference_from expected current =
     get_difference_from (Environment_include_field_for_diff_computation expected)
       (Environment_items expected) (Environment_items current)"

section \<open>Repository\<close>

text \<open>
  The classes of the nested webhooks, secrets, branch protection rules and workflow settings
  are defined outside the sources at hand; their objects are opaque here.
\<close>

typedecl RepositoryWebhook
typedecl RepositorySecret
typedecl BranchProtectionRule
typedecl RepositoryWorkflowSettings

text \<open>
  The dataclass \<^verbatim>\<open>Repository\<close>. The key \<open>repo_name\<close> is a string; \<open>workflows\<close> is
  \<open>None\<close> when the field is unset or null.
\<close>

record repository =
  repo_id :: val
  repo_node_id :: val
  repo_name :: string
  description :: val
  homepage :: val
  "private" :: val
  has_discussions :: val
  has_issues :: val
  has_projects :: val
  has_wiki :: val
  is_template :: val
  template_repository :: val
  topics :: val
  default_branch :: val
  allow_rebase_merge :: val
  allow_merge_commit :: val
  allow_squash_merge :: val
  allow_auto_merge :: val
  delete_branch_on_merge :: val
  allow_update_branch :: val
  squash_merge_commit_title :: val
  squash_merge_commit_message :: val
  merge_commit_title :: val
  merge_commit_message :: val
  archived :: val
  allow_forking :: val
  web_commit_signoff_required :: val
  secret_scanning :: val
  secret_scanning_push_protection :: val
  dependabot_alerts_enabled :: val
  dependabot_security_updates_enabled :: val
  gh_pages_build_type :: val
  gh_pages_source_branch :: val
  gh_pages_source_path :: val
  workflows :: "RepositoryWorkflowSettings option"
  aliases :: val
  post_process_template_content :: val
  auto_init :: val
  webhooks :: "RepositoryWebhook list"
  secrets :: "RepositorySecret list"
  branch_protection_rules :: "BranchProtectionRule list"
  environments :: "environment list"

definition security_properties :: "string list" where
  "security_properties =
     [''secret_scanning'', ''secret_scanning_push_protection'',
      ''dependabot_security_updates_enabled'']"

definition unavailable_fields_in_archived_repos :: "string list" where
  "unavailable_fields_in_archived_repos =
     [''description'', ''homepage'', ''allow_auto_merge'', ''allow_merge_commit'',
      ''allow_rebase_merge'', ''allow_squash_merge'', ''allow_update_branch'',
      ''delete_branch_on_merge'', ''merge_commit_message'', ''merge_commit_title'',
      ''squash_merge_commit_message'', ''squash_merge_commit_title'',
      ''dependabot_alerts_enabled'', ''dependabot_security_updates_enabled'',
      ''secret_scanning'', ''secret_scanning_push_protection'',
      ''has_issues'', ''has_wiki'', ''has_projects'']"

definition gh_pages_properties :: "string list" where
  "gh_pages_properties = [''gh_pages_source_branch'', ''gh_pages_source_path'']"

text \<open>The fields that hold plain values (not nested model objects), in declaration order.\<close>

definition Repository_items :: "repository \<Rightarrow> (string \<times> val) list" where
  "Repository_items r =
     [(''id'', repo_id r), (''node_id'', repo_node_id r), (''name'', VStr (repo_name r)),
      (''description'', description r), (''homepage'', homepage r), (''private'', private r),
      (''has_discussions'', has_discussions r), (''has_issues'', has_issues r),
      (''has_projects'', has_projects r), (''has_wiki'', has_wiki r),
      (''is_template'', is_template r), (''template_repository'', template_repository r),
      (''topics'', topics r), (''default_branch'', default_branch r),
      (''allow_rebase_merge'', allow_rebase_merge r),
      (''allow_merge_commit'', allow_merge_commit r),
      (''allow_squash_merge'', allow_squash_merge r),
      (''allow_auto_merge'', allow_auto_merge r),
      (''delete_branch_on_merge'', delete_branch_on_merge r),
      (''allow_update_branch'', allow_update_branch r),
      (''squash_merge_commit_title'', squash_merge_commit_title r),
      (''squash_merge_commit_message'', squash_merge_commit_message r),
      (''merge_commit_title'', merge_commit_title r),
      (''merge_commit_message'', merge_commit_message r),
      (''archived'', archived r), (''allow_forking'', allow_forking r),
      (''web_commit_signoff_required'', web_commit_signoff_required r),
      (''secret_scanning'', secret_scanning r),
      (''secret_scanning_push_protection'', secret_scanning_push_protection r),
      (''dependabot_alerts_enabled'', dependabot_alerts_enabled r),
      (''dependabot_security_updates_enabled'', dependabot_security_updates_enabled r),
      (''gh_pages_build_type'', gh_pages_build_type r),
      (''gh_pages_source_branch'', gh_pages_source_branch r),
      (''gh_pages_source_path'', gh_pages_source_path r),
      (''aliases'', aliases r),
      (''post_process_template_content'', post_process_template_content r),
      (''auto_init'', auto_init r)]"


definition Repository_include_field_for_diff_computation :: "repository \<Rightarrow> string \<Rightarrow> bool" where
  "Repository_include_field_for_diff_computation r field_name =
     (if private r = VBool True \<and> field_name \<in> set security_properties then False
      else if archived r = VBool True \<and> field_name \<in> set unavailable_fields_in_archived_repos then False
      else if gh_pages_build_type r \<in> set [VStr ''disabled'', VStr ''workflow'']
              \<and> field_name \<in> set gh_pages_properties then False
      else True)"

definition Repository_get_difference_from :: "repository \<Rightarrow> repository \<Rightarrow> (string \<times> change) list" where
  "Repository_get_difference_from expected current =
     get_difference_from (Repository_include_field_for_diff_computation expected)
       (Repository_items expected) (Repository_items current)"

section \<open>Live patches\<close>

datatype model_object =
    RepositoryObject repository
  | EnvironmentObject environment
  | WebhookObject RepositoryWebhook
  | SecretObject RepositorySecret
  | BranchProtectionRuleObject BranchProtectionRule
  | WorkflowSettingsObject RepositoryWorkflowSettings

datatype live_patch_type = ADD | REMOVE | CHANGE

record live_patch =
  patch_type :: live_patch_type
  expected_object :: "model_object option"
  current_object :: "model_object option"
  changes :: "(string \<times> change) list option"
  parent_object :: "model_object option"

text \<open>
  The constructors of \<^verbatim>\<open>LivePatch\<close>, as \<^verbatim>\<open>apply_live_patch\<close> reads them back: an addition
  carries the expected object, a deletion the current one, a change both and the changes.
\<close>

definition of_addition :: "model_object \<Rightarrow> model_object option \<Rightarrow> live_patch" where
  "of_addition expected parent =
     \<lparr>patch_type = ADD, expected_object = Some expected, current_object = None,
      changes = None, parent_object = parent\<rparr>"

definition of_deletion :: "model_object \<Rightarrow> model_object option \<Rightarrow> live_patch" where
  "of_deletion current parent =
     \<lparr>patch_type = REMOVE, expected_object = None, current_object = Some current,
      changes = None, parent_object = parent\<rparr>"

definition of_changes ::
  "model_object \<Rightarrow> model_object \<Rightarrow> (string \<times> change) list \<Rightarrow> model_object option \<Rightarrow> live_patch" where
  "of_changes expected current modified parent =
     \<lparr>patch_type = CHANGE, expected_object = Some expected, current_object = Some current,
      changes = Some modified, parent_object = parent\<rparr>"

record live_patch_context =
  org_id :: string
  modified_org_settings :: "(string \<times> change) list"
  expected_org_settings :: "(string \<times> val) list"

subsection \<open>Environments\<close>

text \<open>\<^verbatim>\<open>Environment.generate_live_patch\<close>; the result lists the patches handed to the handler.\<close>

definition Environment_generate_live_patch ::
  "environment option \<Rightarrow> environment option \<Rightarrow> model_object option \<Rightarrow> live_patch_context
     \<Rightarrow> error + live_patch list" where
  "Environment_generate_live_patch expected current parent context =
     (case current of
        None \<Rightarrow>
          (case expected of
             None \<Rightarrow> Inl AssertionError
           | Some e \<Rightarrow> Inr [of_addition (EnvironmentObject e) parent])
      | Some c \<Rightarrow>
          (case expected of
             None \<Rightarrow> Inr [of_deletion (EnvironmentObject c) parent]
           | Some e \<Rightarrow>
               (let modified_env = Environment_get_difference_from e c
                in if length modified_env > 0
                   then Inr [of_changes (EnvironmentObject e) (EnvironmentObject c) modified_env parent]
                   else Inr [])))"

text \<open>
  The loop over the current environments of \<^verbatim>\<open>Environment.generate_live_patch_of_list\<close>,
  threading the working copy \<open>by_name\<close> of the expected environments.
\<close>

fun Environment_current_loop ::
  "repository \<Rightarrow> live_patch_context \<Rightarrow> environment list \<Rightarrow> (string \<times> environment) list
     \<Rightarrow> error + (live_patch list \<times> (string \<times> environment) list)" where
  "Environment_current_loop parent context [] by_name = Inr ([], by_name)"
| "Environment_current_loop parent context (current_env # rest) by_name =
     (case map_of by_name (env_name current_env) of
        None \<Rightarrow>
          if lower (repo_name parent) = lower (org_id context @ ''.github.io'')
               \<and> env_name current_env = ''github-pages''
          then Environment_current_loop parent context rest by_name
          else if env_name current_env = ''github-pages''
                    \<and> gh_pages_build_type parent \<noteq> VStr ''disabled''
          then Environment_current_loop parent context rest by_name
          else
            and_then (Environment_generate_live_patch None (Some current_env)
                        (Some (RepositoryObject parent)) context) (\<lambda>ps.
            and_then (Environment_current_loop parent context rest by_name) (\<lambda>(qs, d).
              Inr (ps @ qs, d)))
      | Some expected_env \<Rightarrow>
          and_then (Environment_generate_live_patch (Some expected_env) (Some current_env)
                      (Some (RepositoryObject parent)) context) (\<lambda>ps.
          and_then (dict_pop by_name (env_name current_env)) (\<lambda>by_name'.
          and_then (Environment_current_loop parent context rest by_name') (\<lambda>(qs, d).
            Inr (ps @ qs, d)))))"

definition Environment_generate_live_patch_of_list ::
  "environment list \<Rightarrow> environment list \<Rightarrow> repository \<Rightarrow> live_patch_context
     \<Rightarrow> error + live_patch list" where
  "Environment_generate_live_patch_of_list expected_environments current_environments parent context =
     and_then (Environment_current_loop parent context current_environments
                 (associate_by_key expected_environments env_name)) (\<lambda>(ps, by_name).
     and_then (collect (map (\<lambda>(n, env). Environment_generate_live_patch (Some env) None
                                  (Some (RepositoryObject parent)) context) by_name)) (\<lambda>qs.
       Inr (ps @ qs)))"

subsection \<open>Repositories\<close>

text \<open>
  The reconcilers of the sibling classes (\<^verbatim>\<open>RepositoryWorkflowSettings.generate_live_patch\<close>,
  and \<^verbatim>\<open>generate_live_patch_of_list\<close> of \<^verbatim>\<open>RepositoryWebhook\<close>, \<^verbatim>\<open>RepositorySecret\<close> and
  \<^verbatim>\<open>BranchProtectionRule\<close>) are parameters: each maps its arguments to the patches it hands
  to the handler, or to the exception it raises.
\<close>

record sibling_classes =
  RepositoryWorkflowSettings_generate_live_patch ::
    "RepositoryWorkflowSettings \<Rightarrow> RepositoryWorkflowSettings option \<Rightarrow> repository
       \<Rightarrow> live_patch_context \<Rightarrow> error + live_patch list"
  RepositoryWebhook_generate_live_patch_of_list ::
    "RepositoryWebhook list \<Rightarrow> RepositoryWebhook list \<Rightarrow> repository
       \<Rightarrow> live_patch_context \<Rightarrow> error + live_patch list"
  RepositorySecret_generate_live_patch_of_list ::
    "RepositorySecret list \<Rightarrow> RepositorySecret list \<Rightarrow> repository
       \<Rightarrow> live_patch_context \<Rightarrow> error + live_patch list"
  BranchProtectionRule_generate_live_patch_of_list ::
    "BranchProtectionRule list \<Rightarrow> BranchProtectionRule list \<Rightarrow> repository
       \<Rightarrow> live_patch_context \<Rightarrow> error + live_patch list"

text \<open>
  Lines 643 to 647 of \<^verbatim>\<open>Repository.generate_live_patch\<close>: the organization wide override
  assigns to the current object, which is the object used from there on.
\<close>

definition override_web_commit_signoff :: "live_patch_context \<Rightarrow> repository \<Rightarrow> repository" where
  "override_web_commit_signoff context current =
     (case map_of (modified_org_settings context) ''web_commit_signoff_required'' of
        None \<Rightarrow> current
      | Some change \<Rightarrow>
          if to_value change = VBool True
          then current\<lparr>web_commit_signoff_required := to_value change\<rparr>
          else current)"

text \<open>Lines 639 to 641 and 649 to 660: the dictionary \<^verbatim>\<open>modified_repo\<close>.\<close>

definition Repository_modified_repo ::
  "live_patch_context \<Rightarrow> repository \<Rightarrow> repository \<Rightarrow> (string \<times> change) list" where
  "Repository_modified_repo context expected current =
     (let has_organization_projects_disabled =
            (map_of (expected_org_settings context) ''has_organization_projects'' = Some (VBool False));
          m0 = Repository_get_difference_from expected current;
          m1 = (if ''gh_pages_source_branch'' \<in> set (dict_keys m0)
                then dict_set m0 ''gh_pages_source_path''
                       (Change (gh_pages_source_path expected) (gh_pages_source_path expected))
                else m0)
      in if ''has_projects'' \<in> set (dict_keys m1) \<and> has_organization_projects_disabled
         then dict_remove m1 ''has_projects''
         else m1)"

text \<open>Lines 674 to 713: the nested objects, reconciled after the repository's own patch.\<close>

definition Repository_nested_patches ::
  "sibling_classes \<Rightarrow> repository \<Rightarrow> repository option \<Rightarrow> repository \<Rightarrow> live_patch_context
     \<Rightarrow> error + live_patch list" where
  "Repository_nested_patches sib expected current parent_repo context =
     and_then
       (case (workflows expected, current) of
          (Some w, Some c) \<Rightarrow>
            RepositoryWorkflowSettings_generate_live_patch sib w (workflows c) parent_repo context
        | _ \<Rightarrow> Inr []) (\<lambda>p1.
     and_then
       (RepositoryWebhook_generate_live_patch_of_list sib (webhooks expected)
          (case current of Some c \<Rightarrow> webhooks c | None \<Rightarrow> []) parent_repo context) (\<lambda>p2.
     and_then
       (RepositorySecret_generate_live_patch_of_list sib (secrets expected)
          (case current of Some c \<Rightarrow> secrets c | None \<Rightarrow> []) parent_repo context) (\<lambda>p3.
     and_then
       (Environment_generate_live_patch_of_list (environments expected)
          (case current of Some c \<Rightarrow> environments c | None \<Rightarrow> []) parent_repo context) (\<lambda>p4.
     and_then
       (if archived expected = VBool False
        then BranchProtectionRule_generate_live_patch_of_list sib (branch_protection_rules expected)
               (case current of Some c \<Rightarrow> branch_protection_rules c | None \<Rightarrow> [])
               parent_repo context
        else Inr []) (\<lambda>p5.
       Inr (p1 @ p2 @ p3 @ p4 @ p5))))))"

definition Repository_generate_live_patch ::
  "sibling_classes \<Rightarrow> repository option \<Rightarrow> repository option \<Rightarrow> model_object option
     \<Rightarrow> live_patch_context \<Rightarrow> error + live_patch list" where
  "Repository_generate_live_patch sib expected current parent context =
     (case current of
        None \<Rightarrow>
          (case expected of
             None \<Rightarrow> Inl AssertionError
           | Some e \<Rightarrow>
               and_then (Repository_nested_patches sib e None e context) (\<lambda>ps.
                 Inr (of_addition (RepositoryObject e) parent # ps)))
      | Some c \<Rightarrow>
          (case expected of
             None \<Rightarrow> Inr [of_deletion (RepositoryObject c) parent]
           | Some e \<Rightarrow>
               (let c' = override_web_commit_signoff context c;
                    modified_repo = Repository_modified_repo context e c';
                    own = (if length modified_repo > 0
                           then [of_changes (RepositoryObject e) (RepositoryObject c')
                                   modified_repo parent]
                           else [])
                in and_then (Repository_nested_patches sib e (Some c') c' context) (\<lambda>ps.
                     Inr (own @ ps)))))"






section \<open>Mappings to the provider\<close>

text \<open>
  A mapping handed to \<^verbatim>\<open>jsonbender.bend\<close>: \<open>S k\<close> selects the field \<open>k\<close> of the data,
  \<open>K v\<close> is a constant, \<open>If_eq a b t e\<close> is \<^verbatim>\<open>If(a == b, t, e)\<close>; dictionaries and lists
  are bent entry by entry, so the payload has the keys of the mapping.
\<close>

datatype mapping_value =
    S string
  | K val
  | If_eq mapping_value mapping_value mapping_value mapping_value
  | Dict "(string \<times> mapping_value) list"
  | Arr "mapping_value list"

text \<open>The fields of the data that a mapping sends to the provider.\<close>

fun selected_fields :: "mapping_value \<Rightarrow> string list" where
  "selected_fields (S k) = [k]"
| "selected_fields (K v) = []"
| "selected_fields (If_eq a b t e) =
     selected_fields a @ selected_fields b @ selected_fields t @ selected_fields e"
| "selected_fields (Dict kvs) = concat (map (\<lambda>(k, v). selected_fields v) kvs)"
| "selected_fields (Arr vs) = concat (map selected_fields vs)"

text \<open>\<^verbatim>\<open>data.get(k, UNSET)\<close>.\<close>

definition get_or_unset :: "(string \<times> val) list \<Rightarrow> string \<Rightarrow> val" where
  "get_or_unset data k = (case map_of data k of None \<Rightarrow> Unset | Some v \<Rightarrow> v)"

text \<open>\<^verbatim>\<open>data[k]\<close>.\<close>

definition dict_item :: "('k \<times> 'v) list \<Rightarrow> 'k \<Rightarrow> error + 'v" where
  "dict_item d k = (case map_of d k of None \<Rightarrow> Inl KeyError | Some v \<Rightarrow> Inr v)"

text \<open>
  \<^verbatim>\<open>bend(mapping, data)\<close> of \<^verbatim>\<open>jsonbender\<close>, which turns a mapping into the payload for the
  provider: a selector reads the data (a \<^verbatim>\<open>KeyError\<close> when the key is missing), a constant
  stands for itself, a dictionary or list is bent entry by entry.
\<close>

datatype json = JVal val | JObj "(string \<times> json) list" | JArr "json list"

fun json_eq :: "json \<Rightarrow> json \<Rightarrow> bool" where
  "json_eq (JVal a) (JVal b) = py_eq a b"
| "json_eq a b = (a = b)"

fun bend :: "mapping_value \<Rightarrow> (string \<times> val) list \<Rightarrow> error + json"
  and bend_entries ::
    "(string \<times> mapping_value) list \<Rightarrow> (string \<times> val) list \<Rightarrow> error + (string \<times> json) list"
  and bend_items :: "mapping_value list \<Rightarrow> (string \<times> val) list \<Rightarrow> error + json list" where
  "bend (S k) data = and_then (dict_item data k) (\<lambda>v. Inr (JVal v))"
| "bend (K v) data = Inr (JVal v)"
| "bend (If_eq a b t e) data =
     and_then (bend a data) (\<lambda>x. and_then (bend b data) (\<lambda>y.
       if json_eq x y then bend t data else bend e data))"
| "bend (Dict kvs) data = and_then (bend_entries kvs data) (\<lambda>es. Inr (JObj es))"
| "bend (Arr vs) data = and_then (bend_items vs data) (\<lambda>js. Inr (JArr js))"
| "bend_entries [] data = Inr []"
| "bend_entries (kv # kvs) data =
     and_then (bend (snd kv) data) (\<lambda>j. and_then (bend_entries kvs data) (\<lambda>js.
       Inr ((fst kv, j) # js)))"
| "bend_items [] data = Inr []"
| "bend_items (v # vs) data =
     and_then (bend v data) (\<lambda>j. and_then (bend_items vs data) (\<lambda>js. Inr (j # js)))"

text \<open>
  The first statement of both \<^verbatim>\<open>get_mapping_to_provider\<close>; \<open>provider_fields\<close> stands for
  the names of \<^verbatim>\<open>cls.provider_fields()\<close>, which the base class computes.
\<close>

definition set_fields_mapping :: "string list \<Rightarrow> (string \<times> val) list \<Rightarrow> (string \<times> mapping_value) list" where
  "set_fields_mapping provider_fields data =
     map (\<lambda>f. (f, S f)) (filter (\<lambda>f. \<not> is_unset (get_or_unset data f)) provider_fields)"

text \<open>
  \<^verbatim>\<open>Environment.get_mapping_to_provider\<close>; \<open>get_actor_ids_with_type\<close> is the provider's
  lookup of the reviewers, giving (type, (id, node id)) for each.
\<close>

definition Environment_get_mapping_to_provider ::
  "string list \<Rightarrow> (val \<Rightarrow> (string \<times> int \<times> string) list) \<Rightarrow> (string \<times> val) list
     \<Rightarrow> error + (string \<times> mapping_value) list" where
  "Environment_get_mapping_to_provider provider_fields get_actor_ids_with_type data =
     (let mapping = set_fields_mapping provider_fields data in
      and_then
        (if ''reviewers'' \<in> set (dict_keys mapping) then
           and_then (dict_item data ''reviewers'') (\<lambda>reviewers.
             Inr (dict_set mapping ''reviewers''
                    (Arr (map (\<lambda>(actor_type, actor_id, actor_node_id).
                                 Dict [(''type'', K (VStr actor_type)), (''id'', K (VInt actor_id))])
                            (get_actor_ids_with_type reviewers)))))
         else Inr mapping) (\<lambda>mapping.
      if ''deployment_branch_policy'' \<in> set (dict_keys mapping) then
        and_then (dict_item data ''deployment_branch_policy'') (\<lambda>deployment_branch_policy.
          if deployment_branch_policy = VStr ''all'' then
            Inr (dict_set mapping ''deployment_branch_policy'' (K Null))
          else if deployment_branch_policy = VStr ''protected'' then
            Inr (dict_set mapping ''deployment_branch_policy''
                   (Dict [(''protected_branches'', K (VBool True)),
                          (''custom_branch_policies'', K (VBool False))]))
          else if deployment_branch_policy = VStr ''selected'' then
            Inr (dict_set mapping ''deployment_branch_policy''
                   (Dict [(''protected_branches'', K (VBool False)),
                          (''custom_branch_policies'', K (VBool True))]))
          else Inl RuntimeError)
      else Inr mapping))"

text \<open>
  Truth value of a Python value. The class of \<^verbatim>\<open>UNSET\<close> is defined outside the sources,
  so the truth value of the sentinel is the parameter \<open>unset_truth\<close>.
\<close>

fun py_truthy :: "bool \<Rightarrow> val \<Rightarrow> bool" where
  "py_truthy unset_truth Unset = unset_truth"
| "py_truthy unset_truth Null = False"
| "py_truthy unset_truth (VBool b) = b"
| "py_truthy unset_truth (VInt n) = (n \<noteq> 0)"
| "py_truthy unset_truth (VStr s) = (s \<noteq> [])"
| "py_truthy unset_truth (VList xs) = (xs \<noteq> [])"

definition endswith :: "string \<Rightarrow> string \<Rightarrow> bool" where
  "endswith s suffix = (length suffix \<le> length s \<and> drop (length s - length suffix) s = suffix)"

definition removesuffix :: "string \<Rightarrow> string \<Rightarrow> string" where
  "removesuffix s suffix = (if endswith s suffix then take (length s - length suffix) s else s)"

text \<open>\<^verbatim>\<open>s.rsplit("_")[-1]\<close>: what follows the last underscore.\<close>

definition rsplit_last :: "string \<Rightarrow> string" where
  "rsplit_last s = rev (takeWhile (\<lambda>c. c \<noteq> CHR ''_'') (rev s))"

text \<open>One round of the loop over the security properties of a repository that is not private.\<close>

definition security_step ::
  "(string \<times> val) list \<Rightarrow> string
     \<Rightarrow> (string \<times> mapping_value) list \<times> (string \<times> mapping_value) list
     \<Rightarrow> (string \<times> mapping_value) list \<times> (string \<times> mapping_value) list" where
  "security_step data security_prop st =
     (let mapping = (if security_prop \<in> set (dict_keys (fst st))
                     then dict_remove (fst st) security_prop else fst st);
          security_mapping =
            (if security_prop \<in> set (dict_keys data) then
               (if endswith security_prop ''_enabled'' then
                  dict_set (snd st) (removesuffix security_prop ''_enabled'')
                    (Dict [(''status'', If_eq (S security_prop) (K (VBool True))
                                           (K (VStr ''enabled'')) (K (VStr ''disabled'')))])
                else dict_set (snd st) security_prop (Dict [(''status'', S security_prop)]))
             else snd st)
      in (mapping, security_mapping))"

text \<open>One round of the loop over the two source properties of GitHub Pages.\<close>

definition source_step ::
  "(string \<times> val) list \<Rightarrow> string
     \<Rightarrow> (string \<times> mapping_value) list \<times> (string \<times> mapping_value) list
     \<Rightarrow> error + (string \<times> mapping_value) list \<times> (string \<times> mapping_value) list" where
  "source_step data source_prop st =
     (if source_prop \<in> set (dict_keys data) then
        and_then (dict_pop (fst st) source_prop) (\<lambda>mapping.
          Inr (mapping, dict_set (snd st) (rsplit_last source_prop) (S source_prop)))
      else Inr st)"

definition Repository_get_mapping_to_provider ::
  "bool \<Rightarrow> string list \<Rightarrow> (string \<times> val) list \<Rightarrow> error + (string \<times> mapping_value) list" where
  "Repository_get_mapping_to_provider unset_truth provider_fields data =
     (let mapping = set_fields_mapping provider_fields data;
          is_private = (case map_of data ''private'' of None \<Rightarrow> False
                        | Some v \<Rightarrow> py_truthy unset_truth v);
          mapping =
            (if is_private then
               fold (\<lambda>security_prop m.
                       if security_prop \<in> set (dict_keys m) then dict_remove m security_prop else m)
                 security_properties mapping
             else
               (let st = fold (security_step data) security_properties (mapping, [])
                in if length (snd st) > 0
                   then dict_set (fst st) ''security_and_analysis'' (Dict (snd st))
                   else fst st))
      in
      and_then
        (if ''gh_pages_build_type'' \<in> set (dict_keys data) then
           and_then (dict_pop mapping ''gh_pages_build_type'') (\<lambda>m.
             Inr (m, [(''build_type'', S ''gh_pages_build_type'')]))
         else Inr (mapping, [])) (\<lambda>(mapping, gh_pages_mapping).
      let gh_pages_build_type = (case map_of data ''gh_pages_build_type'' of None \<Rightarrow> Null
                                 | Some v \<Rightarrow> v) in
      and_then
        (if gh_pages_build_type = Null \<or> gh_pages_build_type = VStr ''legacy'' then
           and_then (source_step data ''gh_pages_source_branch'' (mapping, [])) (\<lambda>st.
           and_then (source_step data ''gh_pages_source_path'' st) (\<lambda>(m, gh_pages_legacy_mapping).
             Inr (m, if length gh_pages_legacy_mapping > 0
                     then dict_set gh_pages_mapping ''source'' (Dict gh_pages_legacy_mapping)
                     else gh_pages_mapping)))
         else Inr (mapping, gh_pages_mapping)) (\<lambda>(mapping, gh_pages_mapping).
      Inr (if length gh_pages_mapping > 0
           then dict_set mapping ''gh_pages'' (Dict gh_pages_mapping)
           else mapping))))"

section \<open>Organization workflow settings\<close>

record organization_workflow_settings =
  enabled_repositories :: val
  selected_repositories :: val

text \<open>
  \<^verbatim>\<open>OrganizationWorkflowSettings.include_field_for_diff_computation\<close>; \<open>super_include\<close> is
  the predicate inherited from \<^verbatim>\<open>WorkflowSettings\<close>, on the same object.
\<close>

definition OrganizationWorkflowSettings_include_field_for_diff_computation ::
  "(string \<Rightarrow> bool) \<Rightarrow> organization_workflow_settings \<Rightarrow> string \<Rightarrow> bool" where
  "OrganizationWorkflowSettings_include_field_for_diff_computation super_include s field_name =
     (if enabled_repositories s = VStr ''none'' then
        (if field_name = ''enabled_repositories'' then True else False)
      else if field_name = ''selected_repositories'' then
        (if enabled_repositories s = VStr ''selected'' then True else False)
      else super_include field_name)"

section \<open>Deleting a git reference\<close>

text \<open>
  \<^verbatim>\<open>ReferenceClient.delete_reference\<close>, as a function of the status and body that the
  \<^verbatim>\<open>DELETE\<close> request returned.
\<close>

definition delete_reference :: "int \<times> string \<Rightarrow> error + bool" where
  "delete_reference response =
     (case response of (status, body) \<Rightarrow>
        if status = 204 then Inr True
        else if status \<in> set [409, 422] then Inr False
        else Inl RuntimeError)"

section \<open>Provider fields\<close>

text \<open>
  Modelled from the spec: \<^verbatim>\<open>ModelObject.provider_fields\<close> is computed by the base class,
  which is not among the sources. By the spec a field tagged \<open>external_only\<close> is "provider
  assigned", one tagged \<open>model_only\<close> is "never sent to or read from the provider", one
  tagged \<open>read_only\<close> "is never present in provider-bound mappings", and a \<open>nested_model\<close>
  field is handled recursively: the provider fields are the dataclass fields without any of
  these tags. The mapping functions take the list as a parameter; these are the lists of the
  two dataclasses.
\<close>

definition Repository_provider_fields :: "string list" where
  "Repository_provider_fields =
     [''name'', ''description'', ''homepage'', ''private'', ''has_discussions'', ''has_issues'',
      ''has_projects'', ''has_wiki'', ''is_template'', ''topics'', ''default_branch'',
      ''allow_rebase_merge'', ''allow_merge_commit'', ''allow_squash_merge'',
      ''allow_auto_merge'', ''delete_branch_on_merge'', ''allow_update_branch'',
      ''squash_merge_commit_title'', ''squash_merge_commit_message'', ''merge_commit_title'',
      ''merge_commit_message'', ''archived'', ''allow_forking'', ''web_commit_signoff_required'',
      ''secret_scanning'', ''secret_scanning_push_protection'', ''dependabot_alerts_enabled'',
      ''dependabot_security_updates_enabled'', ''gh_pages_build_type'',
      ''gh_pages_source_branch'', ''gh_pages_source_path'']"

definition Environment_provider_fields :: "string list" where
  "Environment_provider_fields =
     [''name'', ''wait_timer'', ''reviewers'', ''deployment_branch_policy'', ''branch_policies'']"

section \<open>The data of a CHANGE patch\<close>

text \<open>
  Modelled from the spec: \<^verbatim>\<open>ModelObject.changes_to_provider\<close>, which
  \<^verbatim>\<open>Repository.apply_live_patch\<close> calls on the changes of a CHANGE patch, is defined by the
  base class outside the sources. By the spec a CHANGE is applied by mapping "only the changed
  fields" to a partial payload through the to-provider mapping: the data handed to
  \<^verbatim>\<open>get_mapping_to_provider\<close> holds each changed field with the value it changes to.
\<close>

definition changes_data :: "(string \<times> change) list \<Rightarrow> (string \<times> val) list" where
  "changes_data modified = map (\<lambda>kc. (fst kc, to_value (snd kc))) modified"

section \<open>Notions used by the properties\<close>

text \<open>A patch concerns the repository key \<open>k\<close> when one of its objects is a repository of that name.\<close>

fun repository_key :: "model_object option \<Rightarrow> string option" where
  "repository_key (Some (RepositoryObject r)) = Some (repo_name r)"
| "repository_key _ = None"

definition concerns_repository :: "live_patch \<Rightarrow> string \<Rightarrow> bool" where
  "concerns_repository p k =
     (repository_key (expected_object p) = Some k \<or> repository_key (current_object p) = Some k)"

definition no_repository_object :: "live_patch \<Rightarrow> bool" where
  "no_repository_object p =
     (repository_key (expected_object p) = None \<and> repository_key (current_object p) = None)"



text \<open>The names of a repository whose aliases are a list: its name, then the aliases.\<close>

definition names_of :: "repository \<Rightarrow> string list" where
  "names_of r = (case aliases r of VList xs \<Rightarrow> repo_name r # xs | _ \<Rightarrow> [])"






text \<open>Every entry of a mapping selects fields of \<open>D\<close> only.\<close>

definition selects_within :: "string set \<Rightarrow> (string \<times> mapping_value) list \<Rightarrow> bool" where
  "selects_within D m = (\<forall>kv \<in> set m. set (selected_fields (snd kv)) \<subseteq> D)"

text \<open>The findings of severity \<^verbatim>\<open>WARNING\<close>.\<close>

definition warnings :: "finding list \<Rightarrow> finding list" where
  "warnings fs = filter (\<lambda>f. fst f = WARNING) fs"

text \<open>
  The condition under which the loop over the current environments skips an unmatched
  environment: the two exceptions for the environment that GitHub Pages creates.
\<close>

definition github_pages_kept :: "repository \<Rightarrow> live_patch_context \<Rightarrow> environment \<Rightarrow> bool" where
  "github_pages_kept parent context c =
     (env_name c = ''github-pages''
      \<and> (lower (repo_name parent) = lower (org_id context @ ''.github.io'')
         \<or> gh_pages_build_type parent \<noteq> VStr ''disabled''))"

text \<open>The patches of one round of that loop, for the working copy \<open>by_name\<close>.\<close>

definition Environment_round ::
  "repository \<Rightarrow> live_patch_context \<Rightarrow> (string \<times> environment) list \<Rightarrow> environment
     \<Rightarrow> live_patch list" where
  "Environment_round parent context by_name c =
     (case map_of by_name (env_name c) of
        None \<Rightarrow>
          if github_pages_kept parent context c then []
          else [of_deletion (EnvironmentObject c) (Some (RepositoryObject parent))]
      | Some e \<Rightarrow>
          if Environment_get_difference_from e c = [] then []
          else [of_changes (EnvironmentObject e) (EnvironmentObject c)
                  (Environment_get_difference_from e c) (Some (RepositoryObject parent))])"

text \<open>A patch concerns the environment key \<open>k\<close> when one of its objects is an environment of that name.\<close>

fun environment_key :: "model_object option \<Rightarrow> string option" where
  "environment_key (Some (EnvironmentObject e)) = Some (env_name e)"
| "environment_key _ = None"

definition concerns_environment :: "live_patch \<Rightarrow> string \<Rightarrow> bool" where
  "concerns_environment p k =
     (environment_key (expected_object p) = Some k \<or> environment_key (current_object p) = Some k)"

section \<open>Example objects\<close>

text \<open>An environment and a repository as the default configuration creates them, and a context.\<close>

definition example_environment :: "string \<Rightarrow> environment" where
  "example_environment n =
     \<lparr>env_id = Unset, env_node_id = Unset, env_name = n, wait_timer = VInt 0,
      reviewers = VList [], deployment_branch_policy = VStr ''all'', branch_policies = VList []\<rparr>"

definition example_repository :: "string \<Rightarrow> repository" where
  "example_repository n =
     \<lparr>repo_id = Unset, repo_node_id = Unset, repo_name = n, description = Null, homepage = Null,
      private = VBool False, has_discussions = VBool False, has_issues = VBool True,
      has_projects = VBool True, has_wiki = VBool True, is_template = VBool False,
      template_repository = Null, topics = VList [], default_branch = VStr ''main'',
      allow_rebase_merge = VBool True, allow_merge_commit = VBool False,
      allow_squash_merge = VBool True, allow_auto_merge = VBool False,
      delete_branch_on_merge = VBool True, allow_update_branch = VBool True,
      squash_merge_commit_title = VStr ''COMMIT_OR_PR_TITLE'',
      squash_merge_commit_message = VStr ''COMMIT_MESSAGES'',
      merge_commit_title = VStr ''MERGE_MESSAGE'', merge_commit_message = VStr ''PR_TITLE'',
      archived = VBool False, allow_forking = VBool True,
      web_commit_signoff_required = VBool False, secret_scanning = VStr ''enabled'',
      secret_scanning_push_protection = VStr ''enabled'',
      dependabot_alerts_enabled = VBool True, dependabot_security_updates_enabled = VBool False,
      gh_pages_build_type = VStr ''disabled'', gh_pages_source_branch = Null,
      gh_pages_source_path = Null, workflows = None, aliases = VList [],
      post_process_template_content = VList [], auto_init = VBool False,
      webhooks = [], secrets = [], branch_protection_rules = [], environments = []\<rparr>"

definition example_context :: live_patch_context where
  "example_context =
     \<lparr>org_id = ''acme'', modified_org_settings = [], expected_org_settings = []\<rparr>"

text \<open>
  Reconcilers of the sibling classes that hand over no patch, as any reconciler of two empty
  lists does; the examples have no webhooks, secrets, rules or workflow settings.
\<close>

definition example_siblings :: sibling_classes where
  "example_siblings =
     \<lparr>RepositoryWorkflowSettings_generate_live_patch = (\<lambda>e c parent context. Inr []),
      RepositoryWebhook_generate_live_patch_of_list = (\<lambda>es cs parent context. Inr []),
      RepositorySecret_generate_live_patch_of_list = (\<lambda>es cs parent context. Inr []),
      BranchProtectionRule_generate_live_patch_of_list = (\<lambda>es cs parent context. Inr [])\<rparr>"

text \<open>
  A repository whose Pages branch is to change from \<open>gh-pages\<close> to \<open>main\<close>, with the
  source path left unset in the configuration.
\<close>

definition pages_branch_expected :: repository where
  "pages_branch_expected =
     (example_repository ''site'')\<lparr>gh_pages_build_type := VStr ''legacy'',
        gh_pages_source_branch := VStr ''main'', gh_pages_source_path := Unset\<rparr>"

definition pages_branch_current :: repository where
  "pages_branch_current =
     (example_repository ''site'')\<lparr>gh_pages_build_type := VStr ''legacy'',
        gh_pages_source_branch := VStr ''gh-pages'', gh_pages_source_path := VStr ''/''\<rparr>"

text \<open>The repository \<open>docs\<close> with a description that the current one does not have.\<close>

definition docs_expected :: repository where
  "docs_expected = (example_repository ''docs'')\<lparr>description := VStr ''Documentation''\<rparr>"


text \<open>
  The repository \<open>old\<close> of the organization is renamed to \<open>new\<close> in the configuration,
  which keeps the former name as an alias.
\<close>

definition renamed_expected :: repository where
  "renamed_expected = (example_repository ''new'')\<lparr>aliases := VList [''old'']\<rparr>"

section \<open>Basic facts\<close>

lemma and_then_Inr_iff:
  "and_then m f = Inr y \<longleftrightarrow> (\<exists>x. m = Inr x \<and> f x = Inr y)"
  by (cases m) (simp_all add: and_then_def)

lemma and_then_Inr [simp]: "and_then (Inr x) f = f x"
  by (simp add: and_then_def)

lemma and_then_Inl [simp]: "and_then (Inl e) f = Inl e"
  by (simp add: and_then_def)

lemma example_environment_fields [simp]:
  "env_id (example_environment n) = Unset"
  "env_node_id (example_environment n) = Unset"
  "env_name (example_environment n) = n"
  "wait_timer (example_environment n) = VInt 0"
  "reviewers (example_environment n) = VList []"
  "deployment_branch_policy (example_environment n) = VStr ''all''"
  "branch_policies (example_environment n) = VList []"
  by (simp_all add: example_environment_def)

lemma example_repository_fields [simp]:
  "repo_name (example_repository n) = n"
  "private (example_repository n) = VBool False"
  "archived (example_repository n) = VBool False"
  "gh_pages_build_type (example_repository n) = VStr ''disabled''"
  "gh_pages_source_branch (example_repository n) = Null"
  "gh_pages_source_path (example_repository n) = Null"
  "web_commit_signoff_required (example_repository n) = VBool False"
  "workflows (example_repository n) = None"
  "aliases (example_repository n) = VList []"
  "webhooks (example_repository n) = []"
  "secrets (example_repository n) = []"
  "branch_protection_rules (example_repository n) = []"
  "environments (example_repository n) = []"
  by (simp_all add: example_repository_def)

lemma example_siblings_fields [simp]:
  "RepositoryWorkflowSettings_generate_live_patch example_siblings = (\<lambda>e c parent context. Inr [])"
  "RepositoryWebhook_generate_live_patch_of_list example_siblings = (\<lambda>es cs parent context. Inr [])"
  "RepositorySecret_generate_live_patch_of_list example_siblings = (\<lambda>es cs parent context. Inr [])"
  "BranchProtectionRule_generate_live_patch_of_list example_siblings = (\<lambda>es cs parent context. Inr [])"
  by (simp_all add: example_siblings_def)

lemma example_context_fields [simp]:
  "org_id example_context = ''acme''"
  "modified_org_settings example_context = []"
  "expected_org_settings example_context = []"
  by (simp_all add: example_context_def)

lemma get_difference_from_entry:
  assumes "(k, ch) \<in> set (get_difference_from inc self_items other_items)"
  shows "inc k \<and> \<not> is_unset (to_value ch) \<and> (k, to_value ch) \<in> set self_items"
  using assms unfolding get_difference_from_def
  by (auto dest: set_zip_leftD)

lemma get_difference_from_key_included:
  "k \<in> set (dict_keys (get_difference_from inc self_items other_items)) \<Longrightarrow> inc k"
  unfolding dict_keys_def using get_difference_from_entry by fastforce

section \<open>Dictionaries\<close>

lemma dict_set_keys: "set (dict_keys (dict_set d k v)) = insert k (set (dict_keys d))"
  by (induction d k v rule: dict_set.induct) (auto simp: dict_keys_def)

lemma dict_set_fresh: "k \<notin> set (dict_keys d) \<Longrightarrow> dict_set d k v = d @ [(k, v)]"
  by (induction d k v rule: dict_set.induct) (auto simp: dict_keys_def)

lemma fold_dict_set_keys:
  "set (dict_keys (fold (\<lambda>x d. dict_set d (key_func x) x) xs d)) = set (dict_keys d) \<union> key_func ` set xs"
  by (induction xs arbitrary: d) (auto simp: dict_set_keys)

lemma associate_by_key_keys: "set (dict_keys (associate_by_key xs key_func)) = key_func ` set xs"
  using fold_dict_set_keys [of key_func xs "[]"]
  by (simp add: associate_by_key_def dict_keys_def)

lemma fold_dict_set_distinct:
  "distinct (dict_keys d @ map key_func xs) \<Longrightarrow>
   fold (\<lambda>x d. dict_set d (key_func x) x) xs d = d @ map (\<lambda>x. (key_func x, x)) xs"
proof (induction xs arbitrary: d)
  case Nil
  then show ?case by simp
next
  case (Cons x xs)
  have fresh: "key_func x \<notin> set (dict_keys d)" using Cons.prems by auto
  have "distinct (dict_keys (d @ [(key_func x, x)]) @ map key_func xs)"
    using Cons.prems by (auto simp: dict_keys_def)
  from Cons.IH [OF this] show ?case
    by (simp add: dict_set_fresh [OF fresh])
qed

lemma associate_by_key_distinct:
  "distinct (map key_func xs) \<Longrightarrow> associate_by_key xs key_func = map (\<lambda>x. (key_func x, x)) xs"
  using fold_dict_set_distinct [of "[]" key_func xs]
  by (simp add: associate_by_key_def dict_keys_def)

lemma map_of_None_keys: "map_of d k = None \<longleftrightarrow> k \<notin> set (dict_keys d)"
  by (simp add: map_of_eq_None_iff dict_keys_def)

lemma map_of_dict_remove: "k' \<noteq> k \<Longrightarrow> map_of (dict_remove d k) k' = map_of d k'"
  by (induction d) (auto simp: dict_remove_def)

section \<open>The loop over the current environments\<close>

lemma Environment_generate_change:
  "Environment_generate_live_patch (Some e) (Some c) parent context =
     Inr (if Environment_get_difference_from e c = [] then []
          else [of_changes (EnvironmentObject e) (EnvironmentObject c)
                  (Environment_get_difference_from e c) parent])"
  by (simp add: Environment_generate_live_patch_def Let_def)

lemma Environment_round_cong:
  "map_of d (env_name c) = map_of d' (env_name c) \<Longrightarrow>
   Environment_round parent context d c = Environment_round parent context d' c"
  by (simp add: Environment_round_def)

lemma Environment_round_unmatched:
  "map_of d (env_name c) = None \<Longrightarrow>
   Environment_round parent context d c =
     (if github_pages_kept parent context c then []
      else [of_deletion (EnvironmentObject c) (Some (RepositoryObject parent))])"
  by (simp add: Environment_round_def)

lemma Environment_round_matched:
  "map_of d (env_name c) = Some e \<Longrightarrow>
   Environment_round parent context d c =
     (if Environment_get_difference_from e c = [] then []
      else [of_changes (EnvironmentObject e) (EnvironmentObject c)
              (Environment_get_difference_from e c) (Some (RepositoryObject parent))])"
  by (simp add: Environment_round_def)

lemma Environment_current_loop_result:
  "distinct (map env_name cs) \<Longrightarrow>
   Environment_current_loop parent context cs d =
     Inr (concat (map (Environment_round parent context d) cs),
          filter (\<lambda>kv. fst kv \<notin> env_name ` set cs) d)"
proof (induction cs arbitrary: d)
  case Nil
  show ?case by simp
next
  case (Cons c cs)
  have dist: "distinct (map env_name cs)" and fresh: "env_name c \<notin> env_name ` set cs"
    using Cons.prems by auto
  show ?case
  proof (cases "map_of d (env_name c)")
    case None
    have keep: "filter (\<lambda>kv. fst kv \<notin> env_name ` set (c # cs)) d
                = filter (\<lambda>kv. fst kv \<notin> env_name ` set cs) d"
      using None by (intro filter_cong) (force simp: map_of_eq_None_iff)+
    have "Environment_current_loop parent context (c # cs) d =
            Inr (Environment_round parent context d c
                   @ concat (map (Environment_round parent context d) cs),
                 filter (\<lambda>kv. fst kv \<notin> env_name ` set cs) d)"
      using None Cons.IH [OF dist, of d]
      by (auto simp: Environment_round_unmatched github_pages_kept_def
          Environment_generate_live_patch_def)
    then show ?thesis
      by (simp only: keep concat.simps list.map)
  next
    case (Some e)
    let ?d = "dict_remove d (env_name c)"
    have pop: "dict_pop d (env_name c) = Inr ?d"
      using Some by (simp add: dict_pop_def)
    have rounds: "map (Environment_round parent context ?d) cs
                  = map (Environment_round parent context d) cs"
    proof (intro map_cong refl Environment_round_cong map_of_dict_remove)
      fix x assume "x \<in> set cs"
      with fresh show "env_name x \<noteq> env_name c" by (metis imageI)
    qed
    have keep: "filter (\<lambda>kv. fst kv \<notin> env_name ` set cs) ?d
                = filter (\<lambda>kv. fst kv \<notin> env_name ` set (c # cs)) d"
      by (auto simp: dict_remove_def intro: filter_cong)
    have "Environment_current_loop parent context (c # cs) d =
            Inr (Environment_round parent context d c
                   @ concat (map (Environment_round parent context ?d) cs),
                 filter (\<lambda>kv. fst kv \<notin> env_name ` set cs) ?d)"
      using Some pop Cons.IH [OF dist, of ?d]
      by (simp add: Environment_round_matched Environment_generate_change)
    then show ?thesis
      by (simp only: keep rounds concat.simps list.map)
  qed
qed

lemma collect_additions:
  "collect (map (\<lambda>(n, env). Environment_generate_live_patch (Some env) None parent context) d)
   = Inr (map (\<lambda>(n, env). of_addition (EnvironmentObject env) parent) d)"
  by (induction d) (auto simp: Environment_generate_live_patch_def)

lemma Environment_generate_live_patch_of_list_result:
  assumes "distinct (map env_name current)"
  shows "Environment_generate_live_patch_of_list expected current parent context =
     Inr (concat (map (Environment_round parent context (associate_by_key expected env_name)) current)
          @ map (\<lambda>(n, env). of_addition (EnvironmentObject env) (Some (RepositoryObject parent)))
              (filter (\<lambda>kv. fst kv \<notin> env_name ` set current) (associate_by_key expected env_name)))"
  by (simp add: Environment_generate_live_patch_of_list_def
      Environment_current_loop_result [OF assms] collect_additions)

lemma Environment_round_removal:
  assumes "p \<in> set (Environment_round parent context d c')"
    and "patch_type p = REMOVE"
  shows "p = of_deletion (EnvironmentObject c') (Some (RepositoryObject parent))
         \<and> map_of d (env_name c') = None \<and> \<not> github_pages_kept parent context c'"
  using assms
  by (cases "map_of d (env_name c')")
     (auto simp: Environment_round_def of_changes_def split: if_splits)



section \<open>The environment that GitHub Pages creates\<close>

text \<open>
  C3. In the reconciliation of an environment list whose expected names and current names
  are each distinct, take a current environment with no expected environment of its name. A REMOVE patch for it is
  handed to the handler, except when it is named \<open>"github-pages"\<close> and the parent
  repository is named \<open><org>.github.io\<close> (compared in lower case) or has a
  \<open>gh_pages_build_type\<close> other than \<open>"disabled"\<close>: then none is.
\<close>

theorem github_pages_environment_removal:
  assumes "distinct (map env_name current)" and "c \<in> set current"
    and "env_name c \<notin> env_name ` set expected"
    and "distinct (map env_name expected)"
  shows "\<exists>ps. Environment_generate_live_patch_of_list expected current parent context = Inr ps
     \<and> ((\<exists>p\<in>set ps. patch_type p = REMOVE \<and> current_object p = Some (EnvironmentObject c))
        \<longleftrightarrow> \<not> (env_name c = ''github-pages''
               \<and> (lower (repo_name parent) = lower (org_id context @ ''.github.io'')
                  \<or> gh_pages_build_type parent \<noteq> VStr ''disabled'')))"
proof -
  let ?d = "associate_by_key expected env_name"
  let ?adds = "map (\<lambda>(n, env). of_addition (EnvironmentObject env) (Some (RepositoryObject parent)))
                 (filter (\<lambda>kv. fst kv \<notin> env_name ` set current) ?d)"
  let ?ps = "concat (map (Environment_round parent context ?d) current) @ ?adds"
  let ?del = "of_deletion (EnvironmentObject c) (Some (RepositoryObject parent))"
  have res: "Environment_generate_live_patch_of_list expected current parent context = Inr ?ps"
    by (rule Environment_generate_live_patch_of_list_result [OF assms(1)])
  have unmatched: "map_of ?d (env_name c) = None"
    using assms(3) by (simp add: map_of_None_keys associate_by_key_keys)
  have "(\<exists>p\<in>set ?ps. patch_type p = REMOVE \<and> current_object p = Some (EnvironmentObject c))
        \<longleftrightarrow> \<not> github_pages_kept parent context c"
  proof
    assume "\<exists>p\<in>set ?ps. patch_type p = REMOVE \<and> current_object p = Some (EnvironmentObject c)"
    then obtain p where p: "p \<in> set ?ps" "patch_type p = REMOVE"
      "current_object p = Some (EnvironmentObject c)" by blast
    have "p \<notin> set ?adds" using p(2) by (auto simp: of_addition_def)
    with p(1) obtain c' where c': "c' \<in> set current"
      "p \<in> set (Environment_round parent context ?d c')" by auto
    from Environment_round_removal [OF c'(2) p(2)] p(3)
    show "\<not> github_pages_kept parent context c"
      by (simp add: of_deletion_def)
  next
    assume "\<not> github_pages_kept parent context c"
    then have "?del \<in> set (Environment_round parent context ?d c)"
      using unmatched by (simp add: Environment_round_unmatched)
    then have "?del \<in> set ?ps" using assms(2) by auto
    then show "\<exists>p\<in>set ?ps. patch_type p = REMOVE \<and> current_object p = Some (EnvironmentObject c)"
      by (intro bexI [of _ ?del]) (simp_all add: of_deletion_def)
  qed
  with res show ?thesis by (simp add: github_pages_kept_def)
qed


theorem github_pages_environment_removal_witness:
  "distinct (map env_name [example_environment ''github-pages'', example_environment ''staging''])
   \<and> example_environment ''github-pages''
        \<in> set [example_environment ''github-pages'', example_environment ''staging'']
   \<and> env_name (example_environment ''github-pages'') \<notin> env_name ` set []
   \<and> distinct (map env_name [])
   \<and> Environment_generate_live_patch_of_list []
        [example_environment ''github-pages'', example_environment ''staging'']
        (example_repository ''Acme.github.io'') example_context
      = Inr [of_deletion (EnvironmentObject (example_environment ''staging''))
               (Some (RepositoryObject (example_repository ''Acme.github.io'')))]"
  using github_pages_environment_removal
    [of "[example_environment ''github-pages'', example_environment ''staging'']"
        "example_environment ''github-pages''" "[]"
        "example_repository ''Acme.github.io''" example_context]
  by (simp add: Environment_generate_live_patch_of_list_def associate_by_key_def
      Environment_generate_live_patch_def lower_def lower_char_def)

section \<open>Branch policies of an environment\<close>

lemma Environment_validate_one_warning:
  assumes "is_set_and_valid (deployment_branch_policy e)"
    and "deployment_branch_policy e \<noteq> VStr ''selected''"
    and "branch_policies e = VList bs" and "bs \<noteq> []"
    and "wait_timer e \<in> {Unset} \<union> range VInt \<union> range VBool"
    and "deployment_branch_policy e \<notin> range VList"
  shows "\<exists>fs. Environment_validate e = Inr fs \<and> length (warnings fs) = 1"
proof -
  obtain f1 where f1: "(if is_unset (wait_timer e) then Inr []
        else and_then (py_int (wait_timer e)) (\<lambda>n.
          Inr (if \<not> (0 \<le> n \<and> n \<le> 43200)
               then [(ERROR, ''has wait_timer outside of supported range (0, 43200).'')]
               else []))) = Inr f1" and w1: "warnings f1 = []"
    using assms(5) by (auto simp: is_unset_def warnings_def)
  obtain allowed where al: "py_in_str_set (deployment_branch_policy e) [''all'', ''protected'', ''selected''] = Inr allowed"
    using assms(6) by (cases "deployment_branch_policy e") auto
  show ?thesis
    unfolding Environment_validate_def f1
    using assms(1-4) al w1 by (simp add: warnings_def Let_def)
qed


text \<open>
  C8. For an environment whose \<open>deployment_branch_policy\<close> is set, valid and not
  \<open>"selected"\<close>: if \<open>branch_policies\<close> is a non-empty list, validation returns findings of
  which exactly one is a WARNING (provided \<open>wait_timer\<close> is unset or a number and the policy
  is hashable, so that validation raises no \<open>TypeError\<close>); and \<open>branch_policies\<close> is
  excluded from the diff computation, so it is in no change set and in no CHANGE patch.
\<close>

theorem branch_policies_ignored_unless_selected:
  assumes "is_set_and_valid (deployment_branch_policy e)"
    and "deployment_branch_policy e \<noteq> VStr ''selected''"
  shows "(branch_policies e = VList bs \<and> bs \<noteq> []
            \<and> wait_timer e \<in> {Unset} \<union> range VInt \<union> range VBool
            \<and> deployment_branch_policy e \<notin> range VList
          \<longrightarrow> (\<exists>fs. Environment_validate e = Inr fs \<and> length (warnings fs) = 1))
       \<and> \<not> Environment_include_field_for_diff_computation e ''branch_policies''
       \<and> ''branch_policies'' \<notin> set (dict_keys (Environment_get_difference_from e c))
       \<and> (\<exists>ps. Environment_generate_live_patch (Some e) (Some c) parent context = Inr ps
             \<and> (\<forall>p\<in>set ps. \<forall>m. changes p = Some m \<longrightarrow> ''branch_policies'' \<notin> set (dict_keys m)))"
proof -
  have excl: "\<not> Environment_include_field_for_diff_computation e ''branch_policies''"
    using assms(2) by (simp add: Environment_include_field_for_diff_computation_def)
  have diff: "''branch_policies'' \<notin> set (dict_keys (Environment_get_difference_from e c))"
    using excl get_difference_from_key_included
    unfolding Environment_get_difference_from_def by blast
  have patches: "\<exists>ps. Environment_generate_live_patch (Some e) (Some c) parent context = Inr ps
             \<and> (\<forall>p\<in>set ps. \<forall>m. changes p = Some m \<longrightarrow> ''branch_policies'' \<notin> set (dict_keys m))"
    using diff by (simp add: Environment_generate_change of_changes_def)
  show ?thesis
    using Environment_validate_one_warning [OF assms] excl diff patches by blast
qed

theorem branch_policies_ignored_unless_selected_witness:
  "is_set_and_valid (deployment_branch_policy
      ((example_environment ''prod'')\<lparr>branch_policies := VList [''main'']\<rparr>))
   \<and> deployment_branch_policy ((example_environment ''prod'')\<lparr>branch_policies := VList [''main'']\<rparr>)
       \<noteq> VStr ''selected''
   \<and> Environment_validate ((example_environment ''prod'')\<lparr>branch_policies := VList [''main'']\<rparr>)
       = Inr [(WARNING, ''has deployment_branch_policy set, but branch_policies is set, setting will be ignored.'')]
   \<and> Environment_generate_live_patch
        (Some ((example_environment ''prod'')\<lparr>branch_policies := VList [''main'']\<rparr>))
        (Some (example_environment ''prod'')) None example_context = Inr []"
  using branch_policies_ignored_unless_selected
    [of "(example_environment ''prod'')\<lparr>branch_policies := VList [''main'']\<rparr>"
        "[''main'']" "example_environment ''prod''" None example_context]
  by (simp add: Environment_validate_def is_set_and_valid_def
      is_unset_def Environment_generate_live_patch_def Environment_get_difference_from_def
      get_difference_from_def Environment_items_def
      Environment_include_field_for_diff_computation_def)

section \<open>The field diff\<close>

lemma Repository_items_keys:
  "map fst (Repository_items r) = map fst (Repository_items r')"
  by (simp add: Repository_items_def)

lemma Repository_items_distinct: "distinct (map fst (Repository_items r))"
  by (simp add: Repository_items_def)

lemma Environment_items_keys:
  "map fst (Environment_items r) = map fst (Environment_items r')"
  by (simp add: Environment_items_def)

lemma Environment_items_distinct: "distinct (map fst (Environment_items r))"
  by (simp add: Environment_items_def)

lemma zip_same_keys:
  assumes "map fst xs = map fst ys" and "(a, b) \<in> set (zip xs ys)"
  shows "fst a = fst b"
proof -
  have "length xs = length ys" using assms(1) by (metis length_map)
  then show ?thesis using assms
    by (induction xs ys rule: list_induct2) auto
qed

lemma get_difference_from_values:
  assumes "(k, ch) \<in> set (get_difference_from inc self_items other_items)"
    and "map fst self_items = map fst other_items" and "distinct (map fst self_items)"
  shows "map_of self_items k = Some (to_value ch) \<and> map_of other_items k = Some (from_value ch)
         \<and> inc k \<and> \<not> is_unset (to_value ch) \<and> \<not> py_eq (from_value ch) (to_value ch)"
proof -
  from assms(1) obtain a b where ab: "(a, b) \<in> set (zip self_items other_items)"
    "k = fst a" "ch = Change (snd b) (snd a)"
    "inc (fst a)" "\<not> is_unset (snd a)" "\<not> py_eq (snd b) (snd a)"
    unfolding get_difference_from_def by auto
  have "fst a = fst b" using zip_same_keys [OF assms(2) ab(1)] .
  moreover have "a \<in> set self_items" "b \<in> set other_items"
    using ab(1) by (auto dest: set_zip_leftD set_zip_rightD)
  ultimately have "map_of self_items k = Some (snd a)" "map_of other_items k = Some (snd b)"
    using assms(2,3) ab(2) by (metis map_of_is_SomeI prod.collapse)+
  with ab show ?thesis by simp
qed

lemma get_difference_from_unset:
  assumes "(k, Unset) \<in> set self_items" and "distinct (map fst self_items)"
  shows "k \<notin> set (dict_keys (get_difference_from inc self_items other_items))"
proof
  assume "k \<in> set (dict_keys (get_difference_from inc self_items other_items))"
  then obtain ch where ch: "(k, ch) \<in> set (get_difference_from inc self_items other_items)"
    unfolding dict_keys_def by auto
  from get_difference_from_entry [OF ch]
  have "(k, to_value ch) \<in> set self_items" "\<not> is_unset (to_value ch)" by simp_all
  with assms have "to_value ch = Unset"
    by (metis map_of_is_SomeI option.inject)
  with \<open>\<not> is_unset (to_value ch)\<close> show False by (simp add: is_unset_def)
qed

lemma dict_remove_keys: "set (dict_keys (dict_remove d k)) = set (dict_keys d) - {k}"
  by (auto simp: dict_remove_def dict_keys_def)

lemma dict_set_entries: "set (dict_set d k v) \<subseteq> insert (k, v) (set d)"
  by (induction d k v rule: dict_set.induct) auto

lemma dict_remove_entries: "set (dict_remove d k) \<subseteq> set d"
  by (auto simp: dict_remove_def)

lemma Repository_modified_repo_keys:
  "set (dict_keys (Repository_modified_repo context expected current))
   \<subseteq> insert ''gh_pages_source_path'' (set (dict_keys (Repository_get_difference_from expected current)))"
  by (auto simp: Repository_modified_repo_def Let_def dict_set_keys dict_remove_keys)

lemma Repository_modified_repo_entries:
  "set (Repository_modified_repo context expected current)
   \<subseteq> insert (''gh_pages_source_path'',
         Change (gh_pages_source_path expected) (gh_pages_source_path expected))
       (set (Repository_get_difference_from expected current))"
  by (auto simp: Repository_modified_repo_def Let_def
      dest!: subsetD [OF dict_remove_entries] subsetD [OF dict_set_entries])


section \<open>Fields of archived and private repositories\<close>

text \<open>
  C5. When the expected repository is archived, no field of the archived-exclusion set is
  included in the diff computation, and none is a key of the change set of the repository's
  CHANGE patch, whatever the expected and current values are; when it is private, the same
  holds for the three security-analysis fields.
\<close>

theorem archived_and_private_exclusions:
  "(archived expected = VBool True \<and> f \<in> set unavailable_fields_in_archived_repos
      \<longrightarrow> \<not> Repository_include_field_for_diff_computation expected f
          \<and> f \<notin> set (dict_keys (Repository_modified_repo context expected current)))
   \<and> (private expected = VBool True \<and> f \<in> set security_properties
      \<longrightarrow> \<not> Repository_include_field_for_diff_computation expected f
          \<and> f \<notin> set (dict_keys (Repository_modified_repo context expected current)))"
proof -
  have excl: "f \<notin> set (dict_keys (Repository_modified_repo context expected current))"
    if "\<not> Repository_include_field_for_diff_computation expected f"
      and "f \<noteq> ''gh_pages_source_path''"
    using that Repository_modified_repo_keys [of "context" expected current]
      get_difference_from_key_included
    unfolding Repository_get_difference_from_def by blast
  have a: "f \<noteq> ''gh_pages_source_path''" if "f \<in> set unavailable_fields_in_archived_repos"
    using that by (auto simp: unavailable_fields_in_archived_repos_def)
  have s: "f \<noteq> ''gh_pages_source_path''" if "f \<in> set security_properties"
    using that by (auto simp: security_properties_def)
  have ia: "\<not> Repository_include_field_for_diff_computation expected f"
    if "archived expected = VBool True" "f \<in> set unavailable_fields_in_archived_repos"
    using that by (simp add: Repository_include_field_for_diff_computation_def)
  have ip: "\<not> Repository_include_field_for_diff_computation expected f"
    if "private expected = VBool True" "f \<in> set security_properties"
    using that by (simp add: Repository_include_field_for_diff_computation_def)
  show ?thesis
    using excl a s ia ip by blast
qed

theorem archived_and_private_exclusions_witness:
  "archived ((example_repository ''r'')\<lparr>archived := VBool True, description := VStr ''new''\<rparr>)
     = VBool True
   \<and> ''description'' \<in> set unavailable_fields_in_archived_repos
   \<and> Repository_modified_repo example_context
        ((example_repository ''r'')\<lparr>archived := VBool True, description := VStr ''new''\<rparr>)
        ((example_repository ''r'')\<lparr>archived := VBool True\<rparr>) = []
   \<and> private ((example_repository ''r'')\<lparr>private := VBool True, secret_scanning := VStr ''disabled''\<rparr>)
     = VBool True
   \<and> ''secret_scanning'' \<in> set security_properties
   \<and> Repository_modified_repo example_context
        ((example_repository ''r'')\<lparr>private := VBool True, secret_scanning := VStr ''disabled''\<rparr>)
        ((example_repository ''r'')\<lparr>private := VBool True\<rparr>) = []"
proof -
  have evaluated: "archived ((example_repository ''r'')\<lparr>archived := VBool True, description := VStr ''new''\<rparr>)
       = VBool True
     \<and> ''description'' \<in> set unavailable_fields_in_archived_repos
     \<and> Repository_modified_repo example_context
          ((example_repository ''r'')\<lparr>archived := VBool True, description := VStr ''new''\<rparr>)
          ((example_repository ''r'')\<lparr>archived := VBool True\<rparr>) = []
     \<and> private ((example_repository ''r'')\<lparr>private := VBool True, secret_scanning := VStr ''disabled''\<rparr>)
       = VBool True
     \<and> ''secret_scanning'' \<in> set security_properties
     \<and> Repository_modified_repo example_context
          ((example_repository ''r'')\<lparr>private := VBool True, secret_scanning := VStr ''disabled''\<rparr>)
          ((example_repository ''r'')\<lparr>private := VBool True\<rparr>) = []"
    by code_simp
  show ?thesis
    using archived_and_private_exclusions
      [of "(example_repository ''r'')\<lparr>archived := VBool True, description := VStr ''new''\<rparr>"
          "''description''" example_context
          "(example_repository ''r'')\<lparr>archived := VBool True\<rparr>"]
      archived_and_private_exclusions
      [of "(example_repository ''r'')\<lparr>private := VBool True, secret_scanning := VStr ''disabled''\<rparr>"
          "''secret_scanning''" example_context
          "(example_repository ''r'')\<lparr>private := VBool True\<rparr>"]
    by - (insert evaluated, assumption)
qed

section \<open>The organization wide sign-off requirement\<close>

lemma map_of_web_commit_signoff_required:
  "map_of (Repository_items r) ''web_commit_signoff_required'' = Some (web_commit_signoff_required r)"
  by (simp add: Repository_items_def)

lemma py_eq_refl: "py_eq v v"
  by (cases v) simp_all

lemma Repository_modified_repo_signoff:
  assumes "(''web_commit_signoff_required'', ch) \<in> set (Repository_modified_repo context expected current)"
  shows "to_value ch = web_commit_signoff_required expected
         \<and> from_value ch = web_commit_signoff_required current
         \<and> \<not> is_unset (to_value ch) \<and> \<not> py_eq (from_value ch) (to_value ch)"
proof -
  have "(''web_commit_signoff_required'', ch) \<in> set (Repository_get_difference_from expected current)"
    using assms Repository_modified_repo_entries [of "context" expected current] by auto
  from get_difference_from_values [OF this [unfolded Repository_get_difference_from_def]
      Repository_items_keys Repository_items_distinct]
  show ?thesis by (simp add: map_of_web_commit_signoff_required)
qed


text \<open>
  C2. When the modified organization settings hold a change of
  \<open>web_commit_signoff_required\<close> to \<open>True\<close>, the repository diff is computed against the
  current repository with that field forced to \<open>True\<close>: this baseline is what the CHANGE
  patch and the nested reconciliation see. The organization's mandate then never shows up as
  a repository change: no entry of the change set sets the field to \<open>True\<close>, and when the
  expected value is unset or \<open>True\<close> the field is not in the change set at all.
\<close>

theorem web_commit_signoff_override:
  assumes "map_of (modified_org_settings context) ''web_commit_signoff_required''
             = Some (Change old (VBool True))"
  shows "override_web_commit_signoff context current
           = current\<lparr>web_commit_signoff_required := VBool True\<rparr>
    \<and> Repository_generate_live_patch sib (Some expected) (Some current) parent context
        = (let baseline = current\<lparr>web_commit_signoff_required := VBool True\<rparr>;
               modified_repo = Repository_modified_repo context expected baseline
           in and_then (Repository_nested_patches sib expected (Some baseline) baseline context)
                (\<lambda>ps. Inr ((if modified_repo = [] then []
                             else [of_changes (RepositoryObject expected) (RepositoryObject baseline)
                                     modified_repo parent]) @ ps)))
    \<and> (\<forall>ch. (''web_commit_signoff_required'', ch)
              \<in> set (Repository_modified_repo context expected
                        (current\<lparr>web_commit_signoff_required := VBool True\<rparr>))
            \<longrightarrow> to_value ch \<noteq> VBool True)
    \<and> (web_commit_signoff_required expected \<in> {Unset, VBool True}
         \<longrightarrow> ''web_commit_signoff_required''
               \<notin> set (dict_keys (Repository_modified_repo context expected
                                    (current\<lparr>web_commit_signoff_required := VBool True\<rparr>))))"
proof -
  let ?b = "current\<lparr>web_commit_signoff_required := VBool True\<rparr>"
  have ov: "override_web_commit_signoff context current = ?b"
    using assms by (simp add: override_web_commit_signoff_def)
  have gen: "Repository_generate_live_patch sib (Some expected) (Some current) parent context
        = (let baseline = ?b;
               modified_repo = Repository_modified_repo context expected baseline
           in and_then (Repository_nested_patches sib expected (Some baseline) baseline context)
                (\<lambda>ps. Inr ((if modified_repo = [] then []
                             else [of_changes (RepositoryObject expected) (RepositoryObject baseline)
                                     modified_repo parent]) @ ps)))"
    by (simp add: Repository_generate_live_patch_def ov Let_def)
  have no_true: "to_value ch \<noteq> VBool True"
    if "(''web_commit_signoff_required'', ch) \<in> set (Repository_modified_repo context expected ?b)"
    for ch
  proof
    assume t: "to_value ch = VBool True"
    from Repository_modified_repo_signoff [OF that]
    have r: "from_value ch = VBool True \<and> \<not> py_eq (from_value ch) (to_value ch)"
      by auto
    then have f: "from_value ch = VBool True" and ne: "\<not> py_eq (from_value ch) (to_value ch)"
      by blast+
    from ne show False unfolding f t by simp
  qed
  have absent: "''web_commit_signoff_required''
       \<notin> set (dict_keys (Repository_modified_repo context expected ?b))"
    if "web_commit_signoff_required expected \<in> {Unset, VBool True}"
  proof
    assume "''web_commit_signoff_required''
       \<in> set (dict_keys (Repository_modified_repo context expected ?b))"
    then obtain ch where ch: "(''web_commit_signoff_required'', ch)
        \<in> set (Repository_modified_repo context expected ?b)"
      unfolding dict_keys_def by auto
    from Repository_modified_repo_signoff [OF ch] no_true [OF ch] that
    show False by (auto simp: is_unset_def)
  qed
  show ?thesis using ov gen no_true absent by blast
qed

theorem web_commit_signoff_override_witness:
  "map_of (modified_org_settings
       (example_context\<lparr>modified_org_settings :=
          [(''web_commit_signoff_required'', Change (VBool False) (VBool True))]\<rparr>))
     ''web_commit_signoff_required'' = Some (Change (VBool False) (VBool True))
   \<and> web_commit_signoff_required ((example_repository ''r'')\<lparr>web_commit_signoff_required := VBool True\<rparr>)
       \<in> {Unset, VBool True}
   \<and> Repository_get_difference_from
        ((example_repository ''r'')\<lparr>web_commit_signoff_required := VBool True\<rparr>)
        (example_repository ''r'')
      = [(''web_commit_signoff_required'', Change (VBool False) (VBool True))]
   \<and> Repository_modified_repo
        (example_context\<lparr>modified_org_settings :=
          [(''web_commit_signoff_required'', Change (VBool False) (VBool True))]\<rparr>)
        ((example_repository ''r'')\<lparr>web_commit_signoff_required := VBool True\<rparr>)
        (override_web_commit_signoff
           (example_context\<lparr>modified_org_settings :=
              [(''web_commit_signoff_required'', Change (VBool False) (VBool True))]\<rparr>)
           (example_repository ''r'')) = []"
proof -
  have evaluated: "map_of (modified_org_settings
         (example_context\<lparr>modified_org_settings :=
            [(''web_commit_signoff_required'', Change (VBool False) (VBool True))]\<rparr>))
       ''web_commit_signoff_required'' = Some (Change (VBool False) (VBool True))
     \<and> web_commit_signoff_required ((example_repository ''r'')\<lparr>web_commit_signoff_required := VBool True\<rparr>)
         \<in> {Unset, VBool True}
     \<and> Repository_get_difference_from
          ((example_repository ''r'')\<lparr>web_commit_signoff_required := VBool True\<rparr>)
          (example_repository ''r'')
        = [(''web_commit_signoff_required'', Change (VBool False) (VBool True))]
     \<and> Repository_modified_repo
          (example_context\<lparr>modified_org_settings :=
            [(''web_commit_signoff_required'', Change (VBool False) (VBool True))]\<rparr>)
          ((example_repository ''r'')\<lparr>web_commit_signoff_required := VBool True\<rparr>)
          (override_web_commit_signoff
             (example_context\<lparr>modified_org_settings :=
                [(''web_commit_signoff_required'', Change (VBool False) (VBool True))]\<rparr>)
             (example_repository ''r'')) = []"
    by code_simp
  show ?thesis
    using web_commit_signoff_override
      [of "example_context\<lparr>modified_org_settings :=
            [(''web_commit_signoff_required'', Change (VBool False) (VBool True))]\<rparr>"
          "VBool False" "example_repository ''r''" undefined
          "(example_repository ''r'')\<lparr>web_commit_signoff_required := VBool True\<rparr>" None]
    by - (insert evaluated, assumption)
qed

section \<open>Adding a repository\<close>

lemma Environment_generate_live_patch_of_list_additions:
  "Environment_generate_live_patch_of_list expected [] parent context =
     Inr (map (\<lambda>env. of_addition (EnvironmentObject env) (Some (RepositoryObject parent)))
            (map snd (associate_by_key expected env_name)))"
proof -
  have "map (\<lambda>(n, env). of_addition (EnvironmentObject env) (Some (RepositoryObject parent))) d
        = map (\<lambda>env. of_addition (EnvironmentObject env) (Some (RepositoryObject parent))) (map snd d)"
    for d :: "(string \<times> environment) list"
    by (induction d) auto
  then show ?thesis
    using Environment_generate_live_patch_of_list_result [of "[]" expected parent "context"]
    by simp
qed


text \<open>
  A repository with one environment and no current counterpart: the handler receives the
  ADD patch of the repository and a separate ADD patch for the environment.
\<close>

theorem repository_addition_patches_counterexample:
  "Repository_generate_live_patch example_siblings
     (Some ((example_repository ''r'')\<lparr>environments := [example_environment ''prod'']\<rparr>))
     None None example_context
   = Inr [of_addition
            (RepositoryObject ((example_repository ''r'')\<lparr>environments := [example_environment ''prod'']\<rparr>))
            None,
          of_addition (EnvironmentObject (example_environment ''prod''))
            (Some (RepositoryObject
               ((example_repository ''r'')\<lparr>environments := [example_environment ''prod'']\<rparr>)))]"
  by (simp add: Repository_generate_live_patch_def Repository_nested_patches_def
      Environment_generate_live_patch_of_list_additions associate_by_key_def)


text \<open>
  C1, as the code has it. For a repository with no current counterpart the handler receives
  the repository's ADD patch first; the workflow settings are skipped; the webhooks, the
  secrets, the environments and, when the expected repository's \<open>archived\<close> is \<open>False\<close>,
  the branch protection rules are each reconciled against an empty current list. So every
  expected environment (their names being distinct) gets an ADD patch of its own, with the
  new repository as parent.
\<close>

theorem repository_addition_patches:
  assumes "distinct (map env_name (environments e))"
  shows "Repository_generate_live_patch sib (Some e) None parent context =
     and_then (RepositoryWebhook_generate_live_patch_of_list sib (webhooks e) [] e context) (\<lambda>p2.
     and_then (RepositorySecret_generate_live_patch_of_list sib (secrets e) [] e context) (\<lambda>p3.
     and_then (if archived e = VBool False
               then BranchProtectionRule_generate_live_patch_of_list sib
                      (branch_protection_rules e) [] e context
               else Inr []) (\<lambda>p5.
       Inr (of_addition (RepositoryObject e) parent # p2 @ p3
            @ map (\<lambda>env. of_addition (EnvironmentObject env) (Some (RepositoryObject e)))
                (environments e)
            @ p5))))"
proof -
  have "map snd (associate_by_key (environments e) env_name) = environments e"
    using associate_by_key_distinct [OF assms] by (simp add: comp_def)
  then show ?thesis
    by (cases "workflows e")
       (simp_all add: Repository_generate_live_patch_def Repository_nested_patches_def
         Environment_generate_live_patch_of_list_additions and_then_def
         split: sum.splits)
qed

theorem repository_addition_patches_witness:
  "distinct (map env_name (environments
      ((example_repository ''docs'')\<lparr>archived := VBool True,
         environments := [example_environment ''prod'', example_environment ''staging'']\<rparr>)))
   \<and> Repository_generate_live_patch example_siblings
     (Some ((example_repository ''docs'')\<lparr>archived := VBool True,
         environments := [example_environment ''prod'', example_environment ''staging'']\<rparr>))
     None None example_context
   = Inr [of_addition
            (RepositoryObject ((example_repository ''docs'')\<lparr>archived := VBool True,
               environments := [example_environment ''prod'', example_environment ''staging'']\<rparr>))
            None,
          of_addition (EnvironmentObject (example_environment ''prod''))
            (Some (RepositoryObject
               ((example_repository ''docs'')\<lparr>archived := VBool True,
                  environments := [example_environment ''prod'', example_environment ''staging'']\<rparr>))),
          of_addition (EnvironmentObject (example_environment ''staging''))
            (Some (RepositoryObject
               ((example_repository ''docs'')\<lparr>archived := VBool True,
                  environments := [example_environment ''prod'', example_environment ''staging'']\<rparr>)))]"
  using repository_addition_patches
    [of "(example_repository ''docs'')\<lparr>archived := VBool True,
           environments := [example_environment ''prod'', example_environment ''staging'']\<rparr>"
        example_siblings None example_context]
  by simp


section \<open>GitHub Pages in the mapping to the provider\<close>

text \<open>
  C7, as the code has it. With \<open>gh_pages_build_type\<close> \<open>"disabled"\<close> the mapping of a
  repository leaves \<open>gh_pages_source_branch\<close> and \<open>gh_pages_source_path\<close> in place as
  top-level entries, whether they hold a value or null, and the payload bent from it carries
  both; only the nested \<open>gh_pages\<close> object is without a \<open>source\<close>.
\<close>

theorem disabled_pages_keeps_source_fields:
  "Repository_get_mapping_to_provider unset_truth Repository_provider_fields
     [(''gh_pages_build_type'', VStr ''disabled''), (''gh_pages_source_branch'', VStr ''main''),
      (''gh_pages_source_path'', VStr ''/'')]
   = Inr [(''gh_pages_source_branch'', S ''gh_pages_source_branch''),
          (''gh_pages_source_path'', S ''gh_pages_source_path''),
          (''gh_pages'', Dict [(''build_type'', S ''gh_pages_build_type'')])]
   \<and> and_then
        (Repository_get_mapping_to_provider unset_truth Repository_provider_fields
           [(''gh_pages_build_type'', VStr ''disabled''),
            (''gh_pages_source_branch'', VStr ''main''), (''gh_pages_source_path'', VStr ''/'')])
        (\<lambda>mapping. bend (Dict mapping)
           [(''gh_pages_build_type'', VStr ''disabled''),
            (''gh_pages_source_branch'', VStr ''main''), (''gh_pages_source_path'', VStr ''/'')])
     = Inr (JObj [(''gh_pages_source_branch'', JVal (VStr ''main'')),
                  (''gh_pages_source_path'', JVal (VStr ''/'')),
                  (''gh_pages'', JObj [(''build_type'', JVal (VStr ''disabled''))])])
   \<and> Repository_get_mapping_to_provider unset_truth Repository_provider_fields
     [(''gh_pages_build_type'', VStr ''disabled''), (''gh_pages_source_branch'', Null),
      (''gh_pages_source_path'', Null)]
   = Inr [(''gh_pages_source_branch'', S ''gh_pages_source_branch''),
          (''gh_pages_source_path'', S ''gh_pages_source_path''),
          (''gh_pages'', Dict [(''build_type'', S ''gh_pages_build_type'')])]"
  by code_simp

section \<open>What the mappings to the provider select\<close>

lemma selected_fields_Dict_set:
  "set (selected_fields (Dict m)) = (\<Union>kv\<in>set m. set (selected_fields (snd kv)))"
  by (induction m) auto

lemma selected_fields_Dict: "selects_within D m \<longleftrightarrow> set (selected_fields (Dict m)) \<subseteq> D"
  unfolding selected_fields_Dict_set selects_within_def by blast

lemma selects_within_Dict: "selects_within D m \<Longrightarrow> set (selected_fields (Dict m)) \<subseteq> D"
  by (simp add: selected_fields_Dict)

lemma selects_within_dict_set:
  "selects_within D m \<Longrightarrow> set (selected_fields v) \<subseteq> D \<Longrightarrow> selects_within D (dict_set m k v)"
  unfolding selects_within_def using dict_set_entries [of m k v] by force

lemma selects_within_dict_remove:
  "selects_within D m \<Longrightarrow> selects_within D (dict_remove m k)"
  unfolding selects_within_def using dict_remove_entries [of m k] by force

lemma dict_pop_Inr: "dict_pop m k = Inr m' \<Longrightarrow> m' = dict_remove m k"
  by (auto simp: dict_pop_def split: if_splits)

lemma set_fields_mapping_keys:
  "set (dict_keys (set_fields_mapping provider_fields data))
   = {f \<in> set provider_fields. get_or_unset data f \<noteq> Unset}"
  by (auto simp: set_fields_mapping_def dict_keys_def is_unset_def)

lemma get_or_unset_set: "get_or_unset data f \<noteq> Unset \<Longrightarrow> f \<in> set (dict_keys data)"
  by (force simp: get_or_unset_def dict_keys_def split: option.splits dest: map_of_SomeD)

lemma set_fields_mapping_selects:
  "selects_within {f. get_or_unset data f \<noteq> Unset} (set_fields_mapping provider_fields data)"
  by (auto simp: selects_within_def set_fields_mapping_def is_unset_def)

lemma selects_within_mono: "selects_within D m \<Longrightarrow> D \<subseteq> D' \<Longrightarrow> selects_within D' m"
  by (auto simp: selects_within_def)

lemma Environment_mapping_unset:
  assumes "Environment_get_mapping_to_provider provider_fields get_actor_ids_with_type data = Inr m"
  shows "set (dict_keys m) \<subseteq> {f. get_or_unset data f \<noteq> Unset}
         \<and> selects_within {f. get_or_unset data f \<noteq> Unset} m"
proof -
  let ?D = "{f. get_or_unset data f \<noteq> Unset}"
  let ?m0 = "set_fields_mapping provider_fields data"
  have m0: "set (dict_keys ?m0) \<subseteq> ?D" "selects_within ?D ?m0"
    using set_fields_mapping_keys [of provider_fields data] set_fields_mapping_selects by auto
  obtain m1 where m1: "set (dict_keys m1) \<subseteq> ?D" "selects_within ?D m1"
    and rest: "(if ''deployment_branch_policy'' \<in> set (dict_keys m1) then
        and_then (dict_item data ''deployment_branch_policy'') (\<lambda>deployment_branch_policy.
          if deployment_branch_policy = VStr ''all'' then
            Inr (dict_set m1 ''deployment_branch_policy'' (K Null))
          else if deployment_branch_policy = VStr ''protected'' then
            Inr (dict_set m1 ''deployment_branch_policy''
                   (Dict [(''protected_branches'', K (VBool True)),
                          (''custom_branch_policies'', K (VBool False))]))
          else if deployment_branch_policy = VStr ''selected'' then
            Inr (dict_set m1 ''deployment_branch_policy''
                   (Dict [(''protected_branches'', K (VBool False)),
                          (''custom_branch_policies'', K (VBool True))]))
          else Inl RuntimeError)
      else Inr m1) = Inr m"
  proof -
    from assms obtain m1 where
      a: "(if ''reviewers'' \<in> set (dict_keys ?m0) then
           and_then (dict_item data ''reviewers'') (\<lambda>reviewers.
             Inr (dict_set ?m0 ''reviewers''
                    (Arr (map (\<lambda>(actor_type, actor_id, actor_node_id).
                                 Dict [(''type'', K (VStr actor_type)), (''id'', K (VInt actor_id))])
                            (get_actor_ids_with_type reviewers)))))
         else Inr ?m0) = Inr m1"
      and b: "(if ''deployment_branch_policy'' \<in> set (dict_keys m1) then
        and_then (dict_item data ''deployment_branch_policy'') (\<lambda>deployment_branch_policy.
          if deployment_branch_policy = VStr ''all'' then
            Inr (dict_set m1 ''deployment_branch_policy'' (K Null))
          else if deployment_branch_policy = VStr ''protected'' then
            Inr (dict_set m1 ''deployment_branch_policy''
                   (Dict [(''protected_branches'', K (VBool True)),
                          (''custom_branch_policies'', K (VBool False))]))
          else if deployment_branch_policy = VStr ''selected'' then
            Inr (dict_set m1 ''deployment_branch_policy''
                   (Dict [(''protected_branches'', K (VBool False)),
                          (''custom_branch_policies'', K (VBool True))]))
          else Inl RuntimeError)
      else Inr m1) = Inr m"
      unfolding Environment_get_mapping_to_provider_def Let_def and_then_Inr_iff by blast
    have sel: "set (selected_fields (Arr (map (\<lambda>(actor_type, actor_id, actor_node_id).
                 Dict [(''type'', K (VStr actor_type)), (''id'', K (VInt actor_id))]) xs))) \<subseteq> ?D"
      for xs :: "(string \<times> int \<times> string) list"
      by (induction xs) auto
    have "set (dict_keys m1) \<subseteq> ?D \<and> selects_within ?D m1"
    proof (cases "''reviewers'' \<in> set (dict_keys ?m0)")
      case True
      with a obtain reviewers where "m1 = dict_set ?m0 ''reviewers''
                    (Arr (map (\<lambda>(actor_type, actor_id, actor_node_id).
                                 Dict [(''type'', K (VStr actor_type)), (''id'', K (VInt actor_id))])
                            (get_actor_ids_with_type reviewers)))"
        by (auto simp: and_then_Inr_iff)
      then show ?thesis
        using True m0 sel selects_within_dict_set [OF m0(2)]
        by (auto simp: dict_set_keys)
    next
      case False
      with a m0 show ?thesis by simp
    qed
    with b that show ?thesis by blast
  qed
  show ?thesis
  proof (cases "''deployment_branch_policy'' \<in> set (dict_keys m1)")
    case True
    with rest obtain v where "m = dict_set m1 ''deployment_branch_policy'' v"
      "set (selected_fields v) = {}"
      by (auto simp: and_then_Inr_iff split: if_splits)
    then show ?thesis
      using True m1 selects_within_dict_set [OF m1(2), of v]
      by (auto simp: dict_set_keys)
  next
    case False
    with rest m1 show ?thesis by simp
  qed
qed


lemma private_security_fold:
  "selects_within D m \<Longrightarrow>
   selects_within D (fold (\<lambda>security_prop m.
       if security_prop \<in> set (dict_keys m) then dict_remove m security_prop else m) ps m)
   \<and> set (dict_keys (fold (\<lambda>security_prop m.
       if security_prop \<in> set (dict_keys m) then dict_remove m security_prop else m) ps m))
     \<subseteq> set (dict_keys m)"
proof (induction ps arbitrary: m)
  case Nil
  then show ?case by simp
next
  case (Cons p ps)
  let ?m = "if p \<in> set (dict_keys m) then dict_remove m p else m"
  have "selects_within D ?m" "set (dict_keys ?m) \<subseteq> set (dict_keys m)"
    using Cons.prems by (auto simp: selects_within_dict_remove dict_remove_keys)
  with Cons.IH [of ?m] show ?case by auto
qed

lemma security_step_invariant:
  assumes "selects_within D (fst st)" and "selects_within D (snd st)"
    and "set (dict_keys data) \<subseteq> D"
  shows "selects_within D (fst (security_step data p st))
         \<and> selects_within D (snd (security_step data p st))
         \<and> set (dict_keys (fst (security_step data p st))) \<subseteq> set (dict_keys (fst st))"
  using assms
  by (auto simp: security_step_def Let_def selects_within_dict_remove dict_remove_keys
      intro!: selects_within_dict_set)

lemma security_fold_invariant:
  assumes "selects_within D (fst st)" and "selects_within D (snd st)"
    and "set (dict_keys data) \<subseteq> D"
  shows "selects_within D (fst (fold (security_step data) ps st))
         \<and> selects_within D (snd (fold (security_step data) ps st))
         \<and> set (dict_keys (fst (fold (security_step data) ps st))) \<subseteq> set (dict_keys (fst st))"
  using assms
proof (induction ps arbitrary: st)
  case Nil
  then show ?case by simp
next
  case (Cons p ps)
  from security_step_invariant [OF Cons.prems, of p]
  have s: "selects_within D (fst (security_step data p st))"
    "selects_within D (snd (security_step data p st))"
    "set (dict_keys (fst (security_step data p st))) \<subseteq> set (dict_keys (fst st))"
    by simp_all
  from Cons.IH [OF s(1,2) Cons.prems(3)] s(3) show ?case by auto
qed

lemma source_step_invariant:
  assumes "source_step data p st = Inr st'"
    and "selects_within D (fst st)" and "selects_within D (snd st)"
    and "set (dict_keys data) \<subseteq> D"
  shows "selects_within D (fst st') \<and> selects_within D (snd st')
         \<and> set (dict_keys (fst st')) \<subseteq> set (dict_keys (fst st))"
  using assms
  by (auto simp: source_step_def and_then_Inr_iff selects_within_dict_remove dict_remove_keys
      dest!: dict_pop_Inr split: if_splits intro!: selects_within_dict_set) blast


lemma Repository_mapping_unset:
  assumes "Repository_get_mapping_to_provider unset_truth provider_fields data = Inr m"
  shows "set (dict_keys m) \<subseteq> {f. get_or_unset data f \<noteq> Unset} \<union> {''security_and_analysis'', ''gh_pages''}
         \<and> selects_within (set (dict_keys data)) m"
proof -
  let ?D = "set (dict_keys data)"
  let ?K = "{f. get_or_unset data f \<noteq> Unset}"
  let ?m0 = "set_fields_mapping provider_fields data"
  define m1 where "m1 =
      (if (case map_of data ''private'' of None \<Rightarrow> False | Some v \<Rightarrow> py_truthy unset_truth v) then
         fold (\<lambda>security_prop m.
                 if security_prop \<in> set (dict_keys m) then dict_remove m security_prop else m)
           security_properties ?m0
       else
         (let st = fold (security_step data) security_properties (?m0, [])
          in if length (snd st) > 0
             then dict_set (fst st) ''security_and_analysis'' (Dict (snd st))
             else fst st))"
  have KD: "?K \<subseteq> ?D" using get_or_unset_set by blast
  have m0: "set (dict_keys ?m0) \<subseteq> ?K" "selects_within ?D ?m0"
    using set_fields_mapping_keys [of provider_fields data]
      selects_within_mono [OF set_fields_mapping_selects KD] by auto
  have m1: "set (dict_keys m1) \<subseteq> ?K \<union> {''security_and_analysis''}" "selects_within ?D m1"
  proof -
    have p: "selects_within ?D (fold (\<lambda>security_prop m.
                 if security_prop \<in> set (dict_keys m) then dict_remove m security_prop else m)
           security_properties ?m0)"
      "set (dict_keys (fold (\<lambda>security_prop m.
                 if security_prop \<in> set (dict_keys m) then dict_remove m security_prop else m)
           security_properties ?m0)) \<subseteq> ?K"
      using private_security_fold [OF m0(2), of security_properties] m0(1) by auto
    let ?st = "fold (security_step data) security_properties (?m0, [])"
    have "selects_within ?D (fst (?m0, []))" "selects_within ?D (snd (?m0, []))"
      using m0(2) by (simp_all add: selects_within_def)
    from security_fold_invariant [OF this subset_refl, of security_properties]
    have st: "selects_within ?D (fst ?st)" "selects_within ?D (snd ?st)"
      "set (dict_keys (fst ?st)) \<subseteq> ?K"
      using m0(1) by auto
    have d: "selects_within ?D (dict_set (fst ?st) ''security_and_analysis'' (Dict (snd ?st)))"
      using st(1,2) by (intro selects_within_dict_set selects_within_Dict)
    show "set (dict_keys m1) \<subseteq> ?K \<union> {''security_and_analysis''}"
      unfolding m1_def Let_def using p(2) st(3) by (auto simp: dict_set_keys)
    show "selects_within ?D m1"
      unfolding m1_def Let_def using p(1) st(1) d by auto
  qed
  from assms have run: "and_then
        (if ''gh_pages_build_type'' \<in> set (dict_keys data) then
           and_then (dict_pop m1 ''gh_pages_build_type'') (\<lambda>m.
             Inr (m, [(''build_type'', S ''gh_pages_build_type'')]))
         else Inr (m1, [])) (\<lambda>(mapping, gh_pages_mapping).
      let gh_pages_build_type = (case map_of data ''gh_pages_build_type'' of None \<Rightarrow> Null
                                 | Some v \<Rightarrow> v) in
      and_then
        (if gh_pages_build_type = Null \<or> gh_pages_build_type = VStr ''legacy'' then
           and_then (source_step data ''gh_pages_source_branch'' (mapping, [])) (\<lambda>st.
           and_then (source_step data ''gh_pages_source_path'' st) (\<lambda>(m, gh_pages_legacy_mapping).
             Inr (m, if length gh_pages_legacy_mapping > 0
                     then dict_set gh_pages_mapping ''source'' (Dict gh_pages_legacy_mapping)
                     else gh_pages_mapping)))
         else Inr (mapping, gh_pages_mapping)) (\<lambda>(mapping, gh_pages_mapping).
      Inr (if length gh_pages_mapping > 0
           then dict_set mapping ''gh_pages'' (Dict gh_pages_mapping)
           else mapping))) = Inr m"
    unfolding Repository_get_mapping_to_provider_def m1_def Let_def by simp
  then obtain m2 g2 where
    a: "(if ''gh_pages_build_type'' \<in> set (dict_keys data) then
           and_then (dict_pop m1 ''gh_pages_build_type'') (\<lambda>m.
             Inr (m, [(''build_type'', S ''gh_pages_build_type'')]))
         else Inr (m1, [])) = Inr (m2, g2)"
    and rest: "and_then
        (if (case map_of data ''gh_pages_build_type'' of None \<Rightarrow> Null | Some v \<Rightarrow> v) = Null
            \<or> (case map_of data ''gh_pages_build_type'' of None \<Rightarrow> Null | Some v \<Rightarrow> v) = VStr ''legacy'' then
           and_then (source_step data ''gh_pages_source_branch'' (m2, [])) (\<lambda>st.
           and_then (source_step data ''gh_pages_source_path'' st) (\<lambda>(m, gh_pages_legacy_mapping).
             Inr (m, if length gh_pages_legacy_mapping > 0
                     then dict_set g2 ''source'' (Dict gh_pages_legacy_mapping)
                     else g2)))
         else Inr (m2, g2)) (\<lambda>(mapping, gh_pages_mapping).
      Inr (if length gh_pages_mapping > 0
           then dict_set mapping ''gh_pages'' (Dict gh_pages_mapping)
           else mapping)) = Inr m"
    by (auto simp: and_then_Inr_iff Let_def)
  have m2: "set (dict_keys m2) \<subseteq> set (dict_keys m1)" "selects_within ?D m2" "selects_within ?D g2"
  proof -
    have "set (dict_keys m2) \<subseteq> set (dict_keys m1) \<and> selects_within ?D m2 \<and> selects_within ?D g2"
    proof (cases "''gh_pages_build_type'' \<in> set (dict_keys data)")
      case True
      with a have "m2 = dict_remove m1 ''gh_pages_build_type''"
        "g2 = [(''build_type'', S ''gh_pages_build_type'')]"
        by (auto simp: and_then_Inr_iff dest!: dict_pop_Inr)
      moreover have "selects_within ?D [(''build_type'', S ''gh_pages_build_type'')]"
        using True by (simp add: selects_within_def)
      ultimately show ?thesis
        using m1(2) by (simp add: selects_within_dict_remove dict_remove_keys)
    next
      case False
      with a m1(2) show ?thesis by (simp add: selects_within_def)
    qed
    then show "set (dict_keys m2) \<subseteq> set (dict_keys m1)" "selects_within ?D m2"
      "selects_within ?D g2" by blast+
  qed
  from rest obtain m3 g3 where
    b: "(if (case map_of data ''gh_pages_build_type'' of None \<Rightarrow> Null | Some v \<Rightarrow> v) = Null
            \<or> (case map_of data ''gh_pages_build_type'' of None \<Rightarrow> Null | Some v \<Rightarrow> v) = VStr ''legacy'' then
           and_then (source_step data ''gh_pages_source_branch'' (m2, [])) (\<lambda>st.
           and_then (source_step data ''gh_pages_source_path'' st) (\<lambda>(m, gh_pages_legacy_mapping).
             Inr (m, if length gh_pages_legacy_mapping > 0
                     then dict_set g2 ''source'' (Dict gh_pages_legacy_mapping)
                     else g2)))
         else Inr (m2, g2)) = Inr (m3, g3)"
    and fin: "m = (if length g3 > 0 then dict_set m3 ''gh_pages'' (Dict g3) else m3)"
    by (auto simp: and_then_Inr_iff)
  have m3: "set (dict_keys m3) \<subseteq> set (dict_keys m2)" "selects_within ?D m3" "selects_within ?D g3"
  proof -
    have "set (dict_keys m3) \<subseteq> set (dict_keys m2) \<and> selects_within ?D m3 \<and> selects_within ?D g3"
    proof (cases "(case map_of data ''gh_pages_build_type'' of None \<Rightarrow> Null | Some v \<Rightarrow> v) = Null
            \<or> (case map_of data ''gh_pages_build_type'' of None \<Rightarrow> Null | Some v \<Rightarrow> v) = VStr ''legacy''")
      case True
      with b obtain st1 l where
        s1: "source_step data ''gh_pages_source_branch'' (m2, []) = Inr st1"
        and s2: "source_step data ''gh_pages_source_path'' st1 = Inr (m3, l)"
        and g3: "g3 = (if length l > 0 then dict_set g2 ''source'' (Dict l) else g2)"
        by (auto simp: and_then_Inr_iff)
      have e: "selects_within ?D (fst (m2, []))" "selects_within ?D (snd (m2, []))"
        using m2(2) by (simp_all add: selects_within_def)
      from source_step_invariant [OF s1 e subset_refl]
      have i1: "selects_within ?D (fst st1)" "selects_within ?D (snd st1)"
        "set (dict_keys (fst st1)) \<subseteq> set (dict_keys m2)" by simp_all
      from source_step_invariant [OF s2 i1(1,2) subset_refl]
      have i2: "selects_within ?D m3" "selects_within ?D l"
        "set (dict_keys m3) \<subseteq> set (dict_keys (fst st1))" by simp_all
      have "selects_within ?D g3"
        unfolding g3 using m2(3) i2(2)
        by (auto intro!: selects_within_dict_set selects_within_Dict)
      with i1 i2 show ?thesis by blast
    next
      case False
      with b m2 show ?thesis by auto
    qed
    then show "set (dict_keys m3) \<subseteq> set (dict_keys m2)" "selects_within ?D m3"
      "selects_within ?D g3" by blast+
  qed
  have "selects_within ?D m"
    unfolding fin using m3(2,3)
    by (auto intro!: selects_within_dict_set selects_within_Dict)
  moreover have "set (dict_keys m) \<subseteq> ?K \<union> {''security_and_analysis'', ''gh_pages''}"
    unfolding fin using m3(1) m2(1) m1(1) by (auto simp: dict_set_keys)
  ultimately show ?thesis by blast
qed

section \<open>Unset fields\<close>

lemma Repository_modified_repo_unset:
  assumes "(f, Unset) \<in> set (Repository_items expected)"
    and "f \<in> set (dict_keys (Repository_modified_repo context expected current))"
  shows "f = ''gh_pages_source_path''
         \<and> ''gh_pages_source_branch'' \<in> set (dict_keys (Repository_modified_repo context expected current))"
proof -
  let ?m0 = "Repository_get_difference_from expected current"
  have not_diff: "f \<notin> set (dict_keys ?m0)"
    unfolding Repository_get_difference_from_def
    by (rule get_difference_from_unset [OF assms(1) Repository_items_distinct])
  have path: "f = ''gh_pages_source_path''"
    using assms(2) not_diff Repository_modified_repo_keys [of "context" expected current] by auto
  have "''gh_pages_source_branch'' \<in> set (dict_keys ?m0)"
  proof (rule ccontr)
    assume "''gh_pages_source_branch'' \<notin> set (dict_keys ?m0)"
    then have "set (dict_keys (Repository_modified_repo context expected current))
               \<subseteq> set (dict_keys ?m0)"
      by (auto simp: Repository_modified_repo_def Let_def dict_remove_keys)
    with assms(2) not_diff show False by auto
  qed
  then have "''gh_pages_source_branch'' \<in> set (dict_keys (Repository_modified_repo context expected current))"
    by (auto simp: Repository_modified_repo_def Let_def dict_remove_keys dict_set_keys)
  with path show ?thesis by simp
qed

lemma pages_branch_fields [simp]:
  "archived pages_branch_expected = VBool False"
  "workflows pages_branch_expected = None"
  "webhooks pages_branch_expected = []" "webhooks pages_branch_current = []"
  "secrets pages_branch_expected = []" "secrets pages_branch_current = []"
  "environments pages_branch_expected = []" "environments pages_branch_current = []"
  "branch_protection_rules pages_branch_expected = []"
  "branch_protection_rules pages_branch_current = []"
  by (simp_all add: pages_branch_expected_def pages_branch_current_def)


text \<open>
  C4, as the code has it. The Pages branch of a repository changes from \<open>gh-pages\<close> to
  \<open>main\<close> while \<open>gh_pages_source_path\<close> is unset in the configuration. The field diff leaves
  the unset field out, but the fix-up for a changed \<open>gh_pages_source_branch\<close> puts it into
  the change set again: the CHANGE patch of the repository lists \<open>gh_pages_source_path\<close>,
  with the unset sentinel on both sides. The data of that patch holds the field as unset, and
  the mapping to the provider raises \<^verbatim>\<open>KeyError\<close> on it, where it pops the source
  properties that the data holds from a mapping that has no entry for an unset one.
\<close>

theorem unset_field_in_change_patch:
  "(''gh_pages_source_path'', Unset) \<in> set (Repository_items pages_branch_expected)
   \<and> Repository_get_difference_from pages_branch_expected pages_branch_current
     = [(''gh_pages_source_branch'', Change (VStr ''gh-pages'') (VStr ''main''))]
   \<and> Repository_generate_live_patch example_siblings (Some pages_branch_expected)
       (Some pages_branch_current) None example_context
     = Inr [of_changes (RepositoryObject pages_branch_expected)
              (RepositoryObject pages_branch_current)
              [(''gh_pages_source_branch'', Change (VStr ''gh-pages'') (VStr ''main'')),
               (''gh_pages_source_path'', Change Unset Unset)]
              None]
   \<and> Repository_get_mapping_to_provider unset_truth Repository_provider_fields
       (changes_data [(''gh_pages_source_branch'', Change (VStr ''gh-pages'') (VStr ''main'')),
                      (''gh_pages_source_path'', Change Unset Unset)])
     = Inl KeyError"
proof -
  have items: "(''gh_pages_source_path'', Unset) \<in> set (Repository_items pages_branch_expected)"
    by code_simp
  have diff: "Repository_get_difference_from pages_branch_expected pages_branch_current
     = [(''gh_pages_source_branch'', Change (VStr ''gh-pages'') (VStr ''main''))]"
    by code_simp
  have modified: "Repository_modified_repo example_context pages_branch_expected pages_branch_current
      = [(''gh_pages_source_branch'', Change (VStr ''gh-pages'') (VStr ''main'')),
         (''gh_pages_source_path'', Change Unset Unset)]"
    by code_simp
  have baseline: "override_web_commit_signoff example_context pages_branch_current
      = pages_branch_current"
    by (simp add: override_web_commit_signoff_def)
  have nested: "Repository_nested_patches example_siblings pages_branch_expected
      (Some pages_branch_current) pages_branch_current example_context = Inr []"
    by (simp add: Repository_nested_patches_def Environment_generate_live_patch_of_list_additions
        associate_by_key_def)
  have patch: "Repository_generate_live_patch example_siblings (Some pages_branch_expected)
       (Some pages_branch_current) None example_context
     = Inr [of_changes (RepositoryObject pages_branch_expected)
              (RepositoryObject pages_branch_current)
              [(''gh_pages_source_branch'', Change (VStr ''gh-pages'') (VStr ''main'')),
               (''gh_pages_source_path'', Change Unset Unset)]
              None]"
    by (simp add: Repository_generate_live_patch_def Let_def baseline modified nested)
  have raised: "Repository_get_mapping_to_provider unset_truth Repository_provider_fields
       (changes_data [(''gh_pages_source_branch'', Change (VStr ''gh-pages'') (VStr ''main'')),
                      (''gh_pages_source_path'', Change Unset Unset)])
     = Inl KeyError"
    by code_simp
  from items diff patch raised show ?thesis by (intro conjI)
qed

section \<open>Key conservation in list reconciliation\<close>

lemma environment_patches_no_repository [simp]:
  "no_repository_object (of_deletion (EnvironmentObject c) parent)"
  "no_repository_object (of_addition (EnvironmentObject e) parent)"
  "no_repository_object (of_changes (EnvironmentObject e) (EnvironmentObject c) m parent)"
  by (simp_all add: no_repository_object_def of_deletion_def of_addition_def of_changes_def)

lemma Environment_round_no_repository:
  "list_all no_repository_object (Environment_round parent context d c)"
  by (cases "map_of d (env_name c)")
     (simp_all add: Environment_round_def)












lemma names_of_list: "aliases r = VList xs \<Longrightarrow> names_of r = repo_name r # xs"
  by (simp add: names_of_def)




















lemma concerns_environment_patches [simp]:
  "concerns_environment (of_deletion (EnvironmentObject c) parent) k \<longleftrightarrow> env_name c = k"
  "concerns_environment (of_addition (EnvironmentObject e) parent) k \<longleftrightarrow> env_name e = k"
  "concerns_environment (of_changes (EnvironmentObject e) (EnvironmentObject c) m parent) k
     \<longleftrightarrow> env_name e = k \<or> env_name c = k"
  by (simp_all add: concerns_environment_def of_deletion_def of_addition_def of_changes_def)






lemma override_repo_name [simp]:
  "repo_name (override_web_commit_signoff context c) = repo_name c"
  by (simp add: override_web_commit_signoff_def split: option.splits)


lemma repository_patches_concern [simp]:
  "concerns_repository (of_deletion (RepositoryObject c) parent) k \<longleftrightarrow> repo_name c = k"
  "concerns_repository (of_addition (RepositoryObject e) parent) k \<longleftrightarrow> repo_name e = k"
  by (simp_all add: concerns_repository_def of_deletion_def of_addition_def)





lemma docs_expected_fields [simp]:
  "repo_name docs_expected = ''docs''"
  "aliases docs_expected = VList []"
  "archived docs_expected = VBool False"
  "workflows docs_expected = None"
  "webhooks docs_expected = []"
  "secrets docs_expected = []"
  "branch_protection_rules docs_expected = []"
  "environments docs_expected = []"
  by (simp_all add: docs_expected_def)


lemma renamed_expected_fields [simp]:
  "repo_name renamed_expected = ''new''"
  "aliases renamed_expected = VList [''old'']"
  "archived renamed_expected = VBool False"
  "workflows renamed_expected = None"
  "webhooks renamed_expected = []"
  "secrets renamed_expected = []"
  "branch_protection_rules renamed_expected = []"
  "environments renamed_expected = []"
  by (simp_all add: renamed_expected_def)




section \<open>Deleting a reference\<close>

text \<open>
  C9. A delete answered with status 409 (conflict) or 422 (how the provider answers the
  delete of a reference that does not exist) returns \<open>False\<close> and raises nothing; status 204
  returns \<open>True\<close>; these three are the only statuses on which \<open>delete_reference\<close> returns.
\<close>

theorem delete_reference_outcomes:
  "delete_reference (409, body) = Inr False \<and> delete_reference (422, body) = Inr False
   \<and> delete_reference (204, body) = Inr True
   \<and> ((\<exists>b. delete_reference (status, body) = Inr b) = (status \<in> {204, 409, 422}))"
  by (auto simp: delete_reference_def)

theorem delete_reference_outcomes_witness:
  "delete_reference (409, ''Conflict'') = Inr False
   \<and> delete_reference (422, ''Reference does not exist'') = Inr False
   \<and> delete_reference (204, []) = Inr True
   \<and> delete_reference (404, ''Not Found'') = Inl RuntimeError"
  using delete_reference_outcomes [of "''Conflict''" 404]
  by (simp add: delete_reference_def)

section \<open>Organization workflow settings\<close>

text \<open>
  C10. When \<open>enabled_repositories\<close> is \<open>"none"\<close>, a field is included in the diff
  computation exactly when it is \<open>enabled_repositories\<close> itself; and the field
  \<open>selected_repositories\<close> is included if and only if \<open>enabled_repositories\<close> is
  \<open>"selected"\<close>, whatever the inherited predicate says.
\<close>

theorem org_workflow_include_field:
  "(enabled_repositories s = VStr ''none'' \<longrightarrow>
      (OrganizationWorkflowSettings_include_field_for_diff_computation super_include s field_name
         \<longleftrightarrow> field_name = ''enabled_repositories''))
   \<and> (OrganizationWorkflowSettings_include_field_for_diff_computation super_include s
         ''selected_repositories'' \<longleftrightarrow> enabled_repositories s = VStr ''selected'')"
  by (simp add: OrganizationWorkflowSettings_include_field_for_diff_computation_def)

theorem org_workflow_include_field_witness:
  "enabled_repositories \<lparr>enabled_repositories = VStr ''none'', selected_repositories = VList [''a'']\<rparr>
     = VStr ''none''
   \<and> \<not> OrganizationWorkflowSettings_include_field_for_diff_computation (\<lambda>f. True)
        \<lparr>enabled_repositories = VStr ''none'', selected_repositories = VList [''a'']\<rparr>
        ''selected_repositories''
   \<and> OrganizationWorkflowSettings_include_field_for_diff_computation (\<lambda>f. True)
        \<lparr>enabled_repositories = VStr ''none'', selected_repositories = VList [''a'']\<rparr>
        ''enabled_repositories''"
  using org_workflow_include_field [of "\<lparr>enabled_repositories = VStr ''none'', selected_repositories = VList [''a'']\<rparr>"
      "\<lambda>f. True" "''selected_repositories''"]
    org_workflow_include_field [of "\<lparr>enabled_repositories = VStr ''none'', selected_repositories = VList [''a'']\<rparr>"
      "\<lambda>f. True" "''enabled_repositories''"]
  by simp

end
